theory Spec2Isabelle
  imports
    Complex_Main
    "HOL-Library.AList"
    "HOL-Library.Char_ord"
    "HOL-Library.List_Lexorder"
    "HOL-Library.Multiset"
    "HOL-Library.Product_Lexorder"
begin

section \<open>F1Dashboard: the data derivation layer of \<^verbatim>\<open>utils.py\<close> and \<^verbatim>\<open>plots.py\<close>\<close>

text \<open>
  The functions of \<^verbatim>\<open>src/utils.py\<close> (and the aggregation part of
  \<^verbatim>\<open>plot_race_wins_per_team\<close> in \<^verbatim>\<open>src/plots.py\<close>) are embedded as HOL functions.
  Python exceptions are values of the type \<open>error\<close>; a function that may raise returns
  \<open>error + 'a\<close>. Python floats (distances, speeds) are idealised as exact rationals:
  rounding errors of the floating-point unit are not modelled. What the external
  libraries \<^verbatim>\<open>fastf1\<close> and \<^verbatim>\<open>pycountry\<close> deliver is taken as a parameter.
\<close>

datatype error = ZeroDivisionError | KeyError string | ValueError | OverflowError

subsection \<open>Corner segmentation: \<^verbatim>\<open>get_avg_speed_between_corners\<close>\<close>

text \<open>One telemetry row: the columns \<^verbatim>\<open>Distance\<close> and \<^verbatim>\<open>Speed\<close> of the car data.\<close>

record telemetry_tick =
  Distance :: rat
  Speed :: rat

text \<open>One row of \<^verbatim>\<open>circuit_info.corners\<close>: the columns \<^verbatim>\<open>Number\<close> and \<^verbatim>\<open>Distance\<close>.\<close>

record corner =
  Number :: int
  corner_Distance :: rat

text \<open>One row of the returned frame, columns in the order of the source.\<close>

record corner_row =
  avg_speed :: rat
  corner_number :: int
  start_dist :: rat
  end_dist :: rat

text \<open>
  The frame \<^verbatim>\<open>df\<close>: rows held under their index label, in insertion order.
  \<^verbatim>\<open>df.loc[label] = row\<close> overwrites the row of an existing label in place and appends
  a new label at the end, which is \<^const>\<open>AList.update\<close>.
\<close>

type_synonym corner_frame = "(int \<times> corner_row) list"

text \<open>
  \<^verbatim>\<open>round(x, 2)\<close>: Python rounds to the nearest multiple of 1/100, an exact tie going to
  the even neighbour. Here the rounding is applied to the exact quotient; Python applies
  it to the binary float nearest to the quotient, so the two can differ in the last
  digit where the exact quotient is a tie or within a float rounding error of one. The
  properties below rely on the bounds of the rounded value and on values that are exact
  in binary floating point, never on the digit chosen at a tie.
\<close>

definition round_half_even :: "rat \<Rightarrow> int" where
  "round_half_even x =
     (let f = \<lfloor>x\<rfloor>; d = x - of_int f
      in if d < 1 / 2 then f
         else if 1 / 2 < d then f + 1
         else if even f then f else f + 1)"

definition py_round2 :: "rat \<Rightarrow> rat" where
  "py_round2 x = of_int (round_half_even (x * 100)) / 100"

text \<open>
  The inner loop \<^verbatim>\<open>for telemetry_tick in telemetry.iterrows()\<close> for one corner with
  reference distance \<open>cd\<close>. Its state is
  \<open>(avg_speed_accumulator, ticks, end, seen, taken)\<close>; \<open>seen\<close> and \<open>taken\<close> are ghost
  variables: the number of rows the loop has looked at, and the rows whose speed it has
  added to the accumulator, in the order it added them. The first component of the
  result tells whether the loop left through \<^verbatim>\<open>break\<close>.
\<close>

fun telemetry_loop ::
  "rat \<Rightarrow> rat \<Rightarrow> telemetry_tick list \<Rightarrow> rat \<times> nat \<times> rat \<times> nat \<times> telemetry_tick list
     \<Rightarrow> bool \<times> rat \<times> nat \<times> rat \<times> nat \<times> telemetry_tick list"
where
  "telemetry_loop cd start [] (avg_speed_accumulator, ticks, end, seen, taken) =
     (False, avg_speed_accumulator, ticks, end, seen, taken)"
| "telemetry_loop cd start (telemetry_tick # rest) (avg_speed_accumulator, ticks, end, seen, taken) =
     (if Distance telemetry_tick > cd
      then (True, avg_speed_accumulator, ticks, end, seen + 1, taken)
      else if Distance telemetry_tick > start then
        telemetry_loop cd start rest
          (avg_speed_accumulator + Speed telemetry_tick, ticks + 1, Distance telemetry_tick,
           seen + 1, taken @ [telemetry_tick])
      else telemetry_loop cd start rest (avg_speed_accumulator, ticks, end, seen + 1, taken))"

text \<open>
  The variables that live across the iterations of the outer loop, and two ghost
  variables: \<open>visits\<close> counts all telemetry rows looked at so far, and \<open>averaged\<close> holds,
  under the index label of each row written to \<^verbatim>\<open>df\<close>, the telemetry rows whose speeds
  were added up for that row.
\<close>

record seg_state =
  df :: corner_frame
  start :: rat
  end_v :: rat
  ticks_list :: "nat list"
  visits :: nat
  averaged :: "(int \<times> telemetry_tick list) list"

definition initial_state :: seg_state where
  "initial_state =
     \<lparr>df = [], start = 0, end_v = 0, ticks_list = [], visits = 0, averaged = []\<rparr>"

text \<open>
  The body of the outer loop for one corner. In the \<^verbatim>\<open>break\<close> branch the source appends
  to \<^verbatim>\<open>ticks_list\<close>, then divides: with \<^verbatim>\<open>ticks = 0\<close> both operands are the Python
  integers \<^verbatim>\<open>0\<close> and the division raises \<^verbatim>\<open>ZeroDivisionError\<close>. When the inner loop runs
  out of telemetry without \<^verbatim>\<open>break\<close>, nothing is written for the corner and only
  \<^verbatim>\<open>end\<close> keeps what the loop assigned.
\<close>

definition corner_step :: "telemetry_tick list \<Rightarrow> corner \<Rightarrow> seg_state \<Rightarrow> error + seg_state" where
  "corner_step telemetry c s =
     (case telemetry_loop (corner_Distance c) (start s) telemetry (0, 0, end_v s, 0, []) of
        (True, avg_speed_accumulator, ticks, end, seen, taken) \<Rightarrow>
          if ticks = 0 then Inl ZeroDivisionError
          else Inr \<lparr>df = AList.update (Number c)
                         \<lparr>avg_speed = py_round2 (avg_speed_accumulator / of_nat ticks),
                          corner_number = Number c,
                          start_dist = start s, end_dist = end\<rparr> (df s),
                    start = end, end_v = end,
                    ticks_list = ticks_list s @ [ticks],
                    visits = visits s + seen,
                    averaged = AList.update (Number c) taken (averaged s)\<rparr>
      | (False, avg_speed_accumulator, ticks, end, seen, taken) \<Rightarrow>
          Inr (s\<lparr>end_v := end, visits := visits s + seen\<rparr>))"

text \<open>The outer loop \<^verbatim>\<open>for _, corner in circuit_info.corners.iterrows()\<close>.\<close>

fun corners_loop :: "telemetry_tick list \<Rightarrow> corner list \<Rightarrow> seg_state \<Rightarrow> error + seg_state" where
  "corners_loop telemetry [] s = Inr s"
| "corners_loop telemetry (c # cs) s =
     (case corner_step telemetry c s of
        Inl e \<Rightarrow> Inl e
      | Inr s' \<Rightarrow> corners_loop telemetry cs s')"

text \<open>
  A loaded session, as far as the functions below read it: the car data of a driver's
  fastest lap with the distance column added
  (\<^verbatim>\<open>session.laps.pick_driver(d).pick_fastest().get_car_data().add_distance()\<close>), in row
  order, and the corners of \<^verbatim>\<open>session.get_circuit_info()\<close>, in row order.
\<close>

record session =
  car_data :: "string \<Rightarrow> telemetry_tick list"
  circuit_corners :: "corner list"

definition get_avg_speed_between_corners :: "session \<Rightarrow> string \<Rightarrow> error + corner_frame" where
  "get_avg_speed_between_corners sess driver_abbr =
     (case corners_loop (car_data sess driver_abbr) (circuit_corners sess) initial_state of
        Inl e \<Rightarrow> Inl e
      | Inr s \<Rightarrow> Inr (df s))"


subsection \<open>Comparative analytics: \<^verbatim>\<open>get_avg_speed_diff_drivers\<close>\<close>

text \<open>
  One row of the frame the function returns. A cell that pandas fills with \<^verbatim>\<open>NaN\<close> is
  \<open>None\<close>. The columns are those of \<^verbatim>\<open>df1\<close> (with \<^verbatim>\<open>avg_speed\<close> renamed), those of
  \<^verbatim>\<open>df2\<close> without \<^verbatim>\<open>corner_number\<close>, and \<^verbatim>\<open>speed_diff\<close>.
\<close>

record diff_row =
  avg_speed_1 :: "rat option"
  corner_number_1 :: "int option"
  start_dist_1 :: "rat option"
  end_dist_1 :: "rat option"
  avg_speed_2 :: "rat option"
  start_dist_2 :: "rat option"
  end_dist_2 :: "rat option"
  speed_diff :: "rat option"

type_synonym diff_frame = "(int \<times> diff_row) list"

text \<open>
  \<^verbatim>\<open>pd.concat([df1, df2], axis=1)\<close>: the rows are aligned on the index labels with the
  default \<^verbatim>\<open>join='outer'\<close>. The index of the result is the union of the two indexes in
  order of first appearance; a label missing on one side gets \<^verbatim>\<open>NaN\<close> in that side's
  columns. (Both frames come from \<^verbatim>\<open>df.loc[label] = ...\<close>, so their labels are unique.)
\<close>

definition concat_axis1 ::
  "corner_frame \<Rightarrow> corner_frame \<Rightarrow> (int \<times> corner_row option \<times> corner_row option) list" where
  "concat_axis1 df1 df2 =
     map (\<lambda>k. (k, map_of df1 k, map_of df2 k))
       (map fst df1 @ filter (\<lambda>k. k \<notin> set (map fst df1)) (map fst df2))"

text \<open>Subtraction of two cells: \<^verbatim>\<open>NaN\<close> on either side gives \<^verbatim>\<open>NaN\<close>.\<close>

definition nan_minus :: "rat option \<Rightarrow> rat option \<Rightarrow> rat option" where
  "nan_minus a b = (case a of None \<Rightarrow> None | Some x \<Rightarrow> (case b of None \<Rightarrow> None | Some y \<Rightarrow> Some (x - y)))"

definition diff_row_of :: "corner_row option \<Rightarrow> corner_row option \<Rightarrow> diff_row" where
  "diff_row_of r1 r2 =
     \<lparr>avg_speed_1 = map_option avg_speed r1,
      corner_number_1 = map_option corner_number r1,
      start_dist_1 = map_option start_dist r1,
      end_dist_1 = map_option end_dist r1,
      avg_speed_2 = map_option avg_speed r2,
      start_dist_2 = map_option start_dist r2,
      end_dist_2 = map_option end_dist r2,
      speed_diff = nan_minus (map_option avg_speed r1) (map_option avg_speed r2)\<rparr>"

text \<open>
  The frame built from the two per-driver frames: the concatenation along the columns
  and the new column \<^verbatim>\<open>speed_diff\<close>, the first average minus the second.
\<close>

definition speed_diff_frame :: "corner_frame \<Rightarrow> corner_frame \<Rightarrow> diff_frame" where
  "speed_diff_frame df1 df2 = map (\<lambda>(k, r1, r2). (k, diff_row_of r1 r2)) (concat_axis1 df1 df2)"

text \<open>
  With the same abbreviation twice, both renamed columns carry one name,
  \<^verbatim>\<open>df[name]\<close> selects two columns, and assigning their two-column difference to the
  single column \<^verbatim>\<open>speed_diff\<close> raises \<^verbatim>\<open>ValueError\<close>.
\<close>

definition get_avg_speed_diff_drivers :: "session \<Rightarrow> string \<Rightarrow> string \<Rightarrow> error + diff_frame" where
  "get_avg_speed_diff_drivers sess driver_abbr1 driver_abbr2 =
     (case get_avg_speed_between_corners sess driver_abbr1 of
        Inl e \<Rightarrow> Inl e
      | Inr df1 \<Rightarrow>
          (case get_avg_speed_between_corners sess driver_abbr2 of
             Inl e \<Rightarrow> Inl e
           | Inr df2 \<Rightarrow>
               if driver_abbr1 = driver_abbr2 then Inl ValueError
               else Inr (speed_diff_frame df1 df2)))"

subsection \<open>Lap times: \<^verbatim>\<open>convert_timedelta_to_datetime\<close>\<close>

text \<open>
  A Python \<^verbatim>\<open>datetime\<close>. The date is held as its proleptic Gregorian ordinal
  (\<^verbatim>\<open>toordinal()\<close>: 1 is 0001-01-01), which is how Python itself does date arithmetic;
  the time of day is held in the fields of the class.
\<close>

record datetime =
  ordinal :: int
  hour :: nat
  minute :: nat
  second :: nat
  microsecond :: nat

text \<open>\<^verbatim>\<open>datetime(2024, 1, 1, 0, 0, 0)\<close>: \<^verbatim>\<open>date(2024, 1, 1).toordinal()\<close> is 738886.\<close>

definition reference_datetime :: datetime where
  "reference_datetime = \<lparr>ordinal = 738886, hour = 0, minute = 0, second = 0, microsecond = 0\<rparr>"

definition since_midnight :: "datetime \<Rightarrow> nat" where
  "since_midnight d = ((hour d * 60 + minute d) * 60 + second d) * 1000000 + microsecond d"

text \<open>
  \<^verbatim>\<open>datetime + timedelta\<close>. A duration is its whole number of microseconds (the
  \<^verbatim>\<open>days\<close>, \<^verbatim>\<open>seconds\<close> and \<^verbatim>\<open>microseconds\<close> the addition reads from a \<^verbatim>\<open>timedelta\<close>,
  also from a pandas \<^verbatim>\<open>Timedelta\<close>). Python raises \<^verbatim>\<open>OverflowError\<close> outside the years
  1 to 9999, whose last day has the ordinal 3652059.
\<close>

definition datetime_add :: "datetime \<Rightarrow> int \<Rightarrow> error + datetime" where
  "datetime_add d t =
     (let total = int (since_midnight d) + t;
          day = ordinal d + total div 86400000000;
          r = nat (total mod 86400000000)
      in if day < 1 \<or> 3652059 < day then Inl OverflowError
         else Inr \<lparr>ordinal = day, hour = r div 3600000000, minute = r div 60000000 mod 60,
                   second = r div 1000000 mod 60, microsecond = r mod 1000000\<rparr>)"

definition digit_char :: "nat \<Rightarrow> char" where
  "digit_char d = ''0123456789'' ! d"

definition pad2 :: "nat \<Rightarrow> string" where
  "pad2 n = [digit_char (n div 10 mod 10), digit_char (n mod 10)]"

definition pad6 :: "nat \<Rightarrow> string" where
  "pad6 n = [digit_char (n div 100000 mod 10), digit_char (n div 10000 mod 10),
             digit_char (n div 1000 mod 10), digit_char (n div 100 mod 10),
             digit_char (n div 10 mod 10), digit_char (n mod 10)]"

text \<open>\<^verbatim>\<open>d.strftime("%M:%S.%f")\<close>: minute and second on two digits, microsecond on six.\<close>

definition strftime_MSf :: "datetime \<Rightarrow> string" where
  "strftime_MSf d = pad2 (minute d) @ '':'' @ pad2 (second d) @ ''.'' @ pad6 (microsecond d)"

definition digit_of :: "char \<Rightarrow> nat option" where
  "digit_of c = (let n = (of_char c :: nat) in if 48 \<le> n \<and> n \<le> 57 then Some (n - 48) else None)"

fun parse_digits :: "nat \<Rightarrow> string \<Rightarrow> nat option" where
  "parse_digits acc [] = Some acc"
| "parse_digits acc (c # cs) =
     (case digit_of c of None \<Rightarrow> None | Some d \<Rightarrow> parse_digits (10 * acc + d) cs)"

text \<open>
  \<^verbatim>\<open>datetime.strptime(s, "%M:%S.%f")\<close>: one or two digits of minutes below 60, a colon,
  one or two digits of seconds, a dot, one to six digits of fraction, padded with zeros
  on the right to microseconds. Year, month, day and hour take the defaults 1900-01-01
  00h (ordinal 693596). Anything else raises \<^verbatim>\<open>ValueError\<close>.
\<close>

definition strptime_MSf :: "string \<Rightarrow> error + datetime" where
  "strptime_MSf s =
     (let ms = takeWhile (\<lambda>c. c \<noteq> CHR '':'') s;
          rest = drop (length ms + 1) s;
          ss = takeWhile (\<lambda>c. c \<noteq> CHR ''.'') rest;
          fs = drop (length ss + 1) rest
      in if length ms < length s \<and> length ss < length rest
            \<and> 1 \<le> length ms \<and> length ms \<le> 2 \<and> 1 \<le> length ss \<and> length ss \<le> 2
            \<and> 1 \<le> length fs \<and> length fs \<le> 6
         then (case (parse_digits 0 ms, parse_digits 0 ss,
                     parse_digits 0 (fs @ replicate (6 - length fs) CHR ''0'')) of
                 (Some m, Some sec, Some f) \<Rightarrow>
                   if m < 60 \<and> sec < 60
                   then Inr \<lparr>ordinal = 693596, hour = 0, minute = m, second = sec, microsecond = f\<rparr>
                   else Inl ValueError
               | _ \<Rightarrow> Inl ValueError)
         else Inl ValueError)"

text \<open>The body of the loop for one duration \<open>t\<close>; \<^verbatim>\<open>[:-3]\<close> drops the last three characters.\<close>

definition convert_one :: "int \<Rightarrow> error + datetime" where
  "convert_one t =
     (case datetime_add reference_datetime t of
        Inl e \<Rightarrow> Inl e
      | Inr datetime_result \<Rightarrow>
          (let formatted_time_as_str =
                 take (length (strftime_MSf datetime_result) - 3) (strftime_MSf datetime_result)
           in strptime_MSf formatted_time_as_str))"

fun convert_timedelta_to_datetime :: "int list \<Rightarrow> error + datetime list" where
  "convert_timedelta_to_datetime [] = Inr []"
| "convert_timedelta_to_datetime (t # ts) =
     (case convert_one t of
        Inl e \<Rightarrow> Inl e
      | Inr datetime_converted \<Rightarrow>
          (case convert_timedelta_to_datetime ts of
             Inl e \<Rightarrow> Inl e
           | Inr converted_lap_time \<Rightarrow> Inr (datetime_converted # converted_lap_time)))"

subsection \<open>Historical aggregations: \<^verbatim>\<open>get_country_counts_ISO\<close>, \<^verbatim>\<open>plot_race_wins_per_team\<close>\<close>

text \<open>
  \<^verbatim>\<open>Series.value_counts()\<close>: one entry per distinct value with the number of its
  occurrences, the largest count first; equal counts are kept here in order of first
  appearance.
\<close>

definition unique_first :: "'a list \<Rightarrow> 'a list" where
  "unique_first xs = rev (remdups (rev xs))"

definition value_counts :: "string list \<Rightarrow> (string \<times> nat) list" where
  "value_counts xs =
     sort_key (\<lambda>(v, n). - int n) (map (\<lambda>v. (v, count_list xs v)) (unique_first xs))"

text \<open>
  A row of \<^verbatim>\<open>data/schedule1980-2024.csv\<close>, as far as it is read: the country and the
  year of \<^verbatim>\<open>EventDate\<close>.
\<close>

record schedule_row =
  Country :: string
  EventDate_year :: int

text \<open>
  The frame \<^verbatim>\<open>country_counts_df\<close> while the loop enriches it: the rows
  \<open>(Country, Count, ISO)\<close>, and whether the column \<^verbatim>\<open>ISO\<close> exists yet. The column is
  created by the first assignment \<^verbatim>\<open>country_counts_df.at[index, 'ISO'] = ...\<close>; a cell
  not assigned, or assigned \<^verbatim>\<open>None\<close>, is \<open>None\<close>.
\<close>

record country_frame =
  country_rows :: "(string \<times> nat \<times> string option) list"
  has_ISO :: bool

text \<open>The loop over \<^verbatim>\<open>iterrows()\<close>: row \<open>i\<close> gets the ISO code of its country.\<close>

fun iso_loop :: "(string \<Rightarrow> string option) \<Rightarrow> nat list \<Rightarrow> country_frame \<Rightarrow> country_frame" where
  "iso_loop get_iso_code [] f = f"
| "iso_loop get_iso_code (i # is) f =
     iso_loop get_iso_code is
       \<lparr>country_rows = (country_rows f)
          [i := (case country_rows f ! i of (c, n, _) \<Rightarrow> (c, n, get_iso_code c))],
        has_ISO = True\<rparr>"

text \<open>
  \<^verbatim>\<open>get_country_counts_ISO\<close>, with the snapshot file's rows and pycountry's lookup
  (\<open>None\<close> where \<^verbatim>\<open>get_iso_code\<close> catches \<^verbatim>\<open>LookupError\<close>) as parameters.
  \<^verbatim>\<open>dropna(subset=['ISO'])\<close> raises \<^verbatim>\<open>KeyError\<close> when the frame has no column
  \<^verbatim>\<open>ISO\<close>, and otherwise keeps the rows whose code is present.
\<close>

definition get_country_counts_ISO ::
  "(string \<Rightarrow> string option) \<Rightarrow> schedule_row list \<Rightarrow> int \<Rightarrow> int
     \<Rightarrow> error + (string \<times> nat \<times> string option) list"
where
  "get_country_counts_ISO get_iso_code schedule start_year end_year =
     (let rows = filter (\<lambda>r. EventDate_year r \<ge> start_year \<and> EventDate_year r \<le> end_year) schedule;
          country_counts = value_counts (map Country rows);
          country_counts_df =
            iso_loop get_iso_code [0 ..< length country_counts]
              \<lparr>country_rows = map (\<lambda>(c, n). (c, n, None)) country_counts, has_ISO = False\<rparr>
      in if \<not> has_ISO country_counts_df then Inl (KeyError ''ISO'')
         else Inr (filter (\<lambda>(c, n, iso). iso \<noteq> None) (country_rows country_counts_df)))"

text \<open>A row of \<^verbatim>\<open>data/race_winners_1980_to_2024.csv\<close>, as far as it is read.\<close>

record winner_row =
  Season :: int
  Team :: string

record team_frame =
  team_rows :: "(string \<times> nat \<times> string option) list"
  has_Color :: bool

text \<open>
  The loop that attaches a colour to each team; \<open>team_color\<close> is
  \<^verbatim>\<open>fastf1.plotting.team_color\<close>, \<open>None\<close> where it raises, and then the row gets
  \<^verbatim>\<open>'white'\<close>.
\<close>

fun color_loop :: "(string \<Rightarrow> string option) \<Rightarrow> nat list \<Rightarrow> team_frame \<Rightarrow> team_frame" where
  "color_loop team_color [] f = f"
| "color_loop team_color (i # is) f =
     color_loop team_color is
       \<lparr>team_rows = (team_rows f)
          [i := (case team_rows f ! i of (team_name, n, _) \<Rightarrow>
                   (team_name, n,
                    Some (case team_color team_name of Some col \<Rightarrow> col | None \<Rightarrow> ''white'')))],
        has_Color = True\<rparr>"

text \<open>
  The aggregation of \<^verbatim>\<open>plot_race_wins_per_team\<close> up to the data of the bar trace:
  the columns \<^verbatim>\<open>Team\<close>, \<^verbatim>\<open>Wins\<close> and \<^verbatim>\<open>Color\<close>. Reading \<^verbatim>\<open>team_wins['Color']\<close> raises
  \<^verbatim>\<open>KeyError\<close> when no iteration of the loop has created the column.
\<close>

definition plot_race_wins_per_team ::
  "(string \<Rightarrow> string option) \<Rightarrow> winner_row list \<Rightarrow> int \<Rightarrow> int
     \<Rightarrow> error + (string \<times> nat \<times> string option) list"
where
  "plot_race_wins_per_team team_color race_winners start_year end_year =
     (let race_winners_df = filter (\<lambda>r. Season r \<ge> start_year \<and> Season r \<le> end_year) race_winners;
          team_wins = sort_key (\<lambda>(v, n). - int n) (value_counts (map Team race_winners_df));
          colored =
            color_loop team_color [0 ..< length team_wins]
              \<lparr>team_rows = map (\<lambda>(c, n). (c, n, None)) team_wins, has_Color = False\<rparr>
      in if \<not> has_Color colored then Inl (KeyError ''Color'')
         else Inr (team_rows colored))"

subsection \<open>Strategy and merge: \<^verbatim>\<open>get_parallel_coordinates_plot_dataset\<close>\<close>

text \<open>
  A lap record, as far as it is read. \<^verbatim>\<open>Stint\<close> and \<^verbatim>\<open>Compound\<close> are \<open>None\<close> where the
  frame holds \<^verbatim>\<open>NaN\<close> or \<^verbatim>\<open>None\<close> (no tyre data for the lap).
\<close>

record lap =
  Driver :: string
  Stint :: "int option"
  Compound :: "string option"
  LapNumber :: nat

text \<open>
  What the two sessions of an event deliver: the laps of the race, the abbreviations of
  \<^verbatim>\<open>session_race.drivers\<close>, and the \<^verbatim>\<open>Abbreviation\<close> columns of the qualifying and race
  results, in classification order.
\<close>

record event_data =
  laps :: "lap list"
  drivers :: "string list"
  quali_abbreviations :: "string list"
  race_abbreviations :: "string list"

text \<open>A row of \<^verbatim>\<open>stints\<close>: \<open>(Driver, Stint, Compound, StintLength)\<close>.\<close>

type_synonym stint_row = "string \<times> int \<times> string \<times> nat"

text \<open>
  \<^verbatim>\<open>groupby(["Driver", "Stint", "Compound"]).count().reset_index()\<close>: a lap with a
  missing key is left out of every group; one row per key, the keys in ascending
  order, with the number of laps of the group.
\<close>

definition group_keys :: "lap list \<Rightarrow> (string \<times> int \<times> string) list" where
  "group_keys ls =
     concat (map (\<lambda>l. case Stint l of None \<Rightarrow> []
                       | Some s \<Rightarrow> (case Compound l of None \<Rightarrow> [] | Some c \<Rightarrow> [(Driver l, s, c)])) ls)"

definition stints_of :: "lap list \<Rightarrow> stint_row list" where
  "stints_of ls =
     map (\<lambda>(d, s, c). (d, s, c, count_list (group_keys ls) (d, s, c)))
       (sort (remdups (group_keys ls)))"

text \<open>The loop that gathers the stints driver by driver into \<^verbatim>\<open>df\<close>.\<close>

definition stints_by_driver :: "stint_row list \<Rightarrow> string list \<Rightarrow> stint_row list" where
  "stints_by_driver stints ds = concat (map (\<lambda>driver. filter (\<lambda>r. fst r = driver) stints) ds)"

text \<open>A row of \<^verbatim>\<open>df2\<close>.\<close>

record strategy_row =
  s_Driver :: string
  Stops :: int
  CompoundStrategy :: "string list"

text \<open>
  The row the loop appends to \<^verbatim>\<open>df2\<close> for a row of \<^verbatim>\<open>df\<close> of the given driver: the
  largest stint number among the driver's rows of \<^verbatim>\<open>df\<close>, minus one, and their compounds.
\<close>

definition strategy_of :: "stint_row list \<Rightarrow> string \<Rightarrow> strategy_row" where
  "strategy_of dfr driver =
     (let mine = filter (\<lambda>r. fst r = driver) dfr
      in \<lparr>s_Driver = driver,
          Stops = Max (set (map (\<lambda>(_, s, _). s) mine)) - 1,
          CompoundStrategy = map (\<lambda>(_, _, c, _). c) mine\<rparr>)"

text \<open>\<^verbatim>\<open>drop_duplicates(subset=[key])\<close>: the first row of each key is kept.\<close>

fun drop_duplicates :: "('a \<Rightarrow> 'k) \<Rightarrow> 'k list \<Rightarrow> 'a list \<Rightarrow> 'a list" where
  "drop_duplicates key seen [] = []"
| "drop_duplicates key seen (x # xs) =
     (if key x \<in> set seen then drop_duplicates key seen xs
      else x # drop_duplicates key (key x # seen) xs)"

text \<open>The frame \<^verbatim>\<open>df2\<close> after \<^verbatim>\<open>drop_duplicates\<close>: one strategy row per driver.\<close>

definition strategy_frame :: "event_data \<Rightarrow> strategy_row list" where
  "strategy_frame ev =
     (let dfr = stints_by_driver (stints_of (laps ev)) (drivers ev)
      in drop_duplicates s_Driver [] (map (\<lambda>r. strategy_of dfr (fst r)) dfr))"

text \<open>\<^verbatim>\<open>enumerate(abbreviations, 1)\<close> as the rows \<open>(Driver, position)\<close>.\<close>

definition enumerate1 :: "string list \<Rightarrow> (string \<times> nat) list" where
  "enumerate1 xs = zip xs [1 ..< Suc (length xs)]"

record merged_row =
  m_Driver :: string
  m_Stops :: int
  m_CompoundStrategy :: "string list"
  QualiPosition :: nat
  FinishPosition :: nat

text \<open>
  \<^verbatim>\<open>pd.merge(left, right, on="Driver")\<close>, an inner join: each left row, in order, with
  each right row of the same driver.
\<close>

definition merge_on_Driver ::
  "('a \<Rightarrow> string) \<Rightarrow> ('a \<Rightarrow> nat \<Rightarrow> 'b) \<Rightarrow> 'a list \<Rightarrow> (string \<times> nat) list \<Rightarrow> 'b list" where
  "merge_on_Driver key join left right =
     concat (map (\<lambda>l. map (\<lambda>r. join l (snd r)) (filter (\<lambda>r. fst r = key l) right)) left)"

text \<open>
  The function, with the loaded sessions as parameter. \<^verbatim>\<open>pd.DataFrame([])\<close> has no
  column, so a merge with empty results raises \<^verbatim>\<open>KeyError\<close> for \<^verbatim>\<open>'Driver'\<close>.
  \<^verbatim>\<open>sort_values('QualiPosition')\<close> orders by the position.
\<close>

definition get_parallel_coordinates_plot_dataset :: "event_data \<Rightarrow> error + merged_row list" where
  "get_parallel_coordinates_plot_dataset ev =
     (let df2 = strategy_frame ev;
          qualifying_results = enumerate1 (quali_abbreviations ev);
          race_results = enumerate1 (race_abbreviations ev)
      in if qualifying_results = [] then Inl (KeyError ''Driver'')
         else
           (let merged1 = merge_on_Driver s_Driver (\<lambda>l p. (l, p)) df2 qualifying_results
            in if race_results = [] then Inl (KeyError ''Driver'')
               else
                 (let merged_df =
                        merge_on_Driver (\<lambda>lq. s_Driver (fst lq))
                          (\<lambda>lq p. \<lparr>m_Driver = s_Driver (fst lq), m_Stops = Stops (fst lq),
                                    m_CompoundStrategy = CompoundStrategy (fst lq),
                                    QualiPosition = snd lq, FinishPosition = p\<rparr>)
                          merged1 race_results
                  in Inr (sort_key QualiPosition merged_df))))"

subsection \<open>Notions used to state the properties\<close>

text \<open>A corner is reached when some telemetry row lies beyond its reference distance.\<close>

definition reached :: "telemetry_tick list \<Rightarrow> corner \<Rightarrow> bool" where
  "reached telemetry c = (\<exists>t \<in> set telemetry. corner_Distance c < Distance t)"


definition mean_speed :: "telemetry_tick list \<Rightarrow> rat" where
  "mean_speed ts = sum_list (map Speed ts) / of_nat (length ts)"

text \<open>
  The rows one run of the inner loop adds up: those before the first row beyond the
  corner that lie beyond \<open>st\<close>.
\<close>

definition included :: "rat \<Rightarrow> rat \<Rightarrow> telemetry_tick list \<Rightarrow> telemetry_tick list" where
  "included cd st telemetry =
     filter (\<lambda>t. st < Distance t) (takeWhile (\<lambda>t. \<not> cd < Distance t) telemetry)"

text \<open>
  The number of rows one run of the inner loop looks at: the rows up to and including
  the first one beyond the corner, or all rows when there is none.
\<close>

definition scanned :: "rat \<Rightarrow> telemetry_tick list \<Rightarrow> nat" where
  "scanned cd telemetry =
     (let pre = takeWhile (\<lambda>t. \<not> cd < Distance t) telemetry
      in if length pre < length telemetry then length pre + 1 else length telemetry)"

text \<open>The total number of telemetry rows the two loops look at, when the call returns.\<close>

definition rows_looked_at :: "telemetry_tick list \<Rightarrow> corner list \<Rightarrow> error + nat" where
  "rows_looked_at telemetry cs =
     (case corners_loop telemetry cs initial_state of Inl e \<Rightarrow> Inl e | Inr s \<Rightarrow> Inr (visits s))"



text \<open>Negation of a cell: \<^verbatim>\<open>NaN\<close> stays \<^verbatim>\<open>NaN\<close>.\<close>

definition nan_neg :: "rat option \<Rightarrow> rat option" where
  "nan_neg a = map_option uminus a"

text \<open>The \<^verbatim>\<open>speed_diff\<close> cell of the row with a given corner number, if there is such a row.\<close>

definition speed_diff_at :: "diff_frame \<Rightarrow> int \<Rightarrow> rat option option" where
  "speed_diff_at d k = map_option speed_diff (map_of d k)"

text \<open>
  The sum \<^verbatim>\<open>reference_datetime + t\<close> stays within the years 1 to 9999. Every pandas
  \<^verbatim>\<open>Timedelta\<close> does: its magnitude is below 106752 days.
\<close>

definition within_datetime_range :: "int \<Rightarrow> bool" where
  "within_datetime_range t =
     (- 738885 \<le> t div 86400000000 \<and> t div 86400000000 \<le> 2913173)"

text \<open>
  What is kept of a duration of \<open>t\<close> microseconds: the minutes, seconds and milliseconds
  of \<open>t\<close> modulo one hour, on the date 1900-01-01 (ordinal 693596) at hour 0.
\<close>

definition kept_components :: "int \<Rightarrow> datetime" where
  "kept_components t =
     (let r = nat (t mod 3600000000)
      in \<lparr>ordinal = 693596, hour = 0, minute = r div 60000000,
          second = r div 1000000 mod 60, microsecond = r mod 1000000 div 1000 * 1000\<rparr>)"

text \<open>
  The stint numbers recorded for a driver: those of the driver's laps that carry both a
  stint number and a compound, which are the laps the grouping counts.
\<close>

definition recorded_stints :: "lap list \<Rightarrow> string \<Rightarrow> int list" where
  "recorded_stints ls d =
     concat (map (\<lambda>l. case Stint l of None \<Rightarrow> []
                       | Some s \<Rightarrow> if Driver l = d \<and> Compound l \<noteq> None then [s] else []) ls)"

text \<open>All stint numbers on the laps of a driver.\<close>

definition stint_numbers :: "lap list \<Rightarrow> string \<Rightarrow> int list" where
  "stint_numbers ls d =
     concat (map (\<lambda>l. case Stint l of None \<Rightarrow> []
                       | Some s \<Rightarrow> if Driver l = d then [s] else []) ls)"

subsection \<open>Concrete data used in the examples\<close>

definition tick :: "rat \<Rightarrow> rat \<Rightarrow> telemetry_tick" where
  "tick d v = \<lparr>Distance = d, Speed = v\<rparr>"

definition crn :: "int \<Rightarrow> rat \<Rightarrow> corner" where
  "crn n d = \<lparr>Number = n, corner_Distance = d\<rparr>"

text \<open>Two corners one metre apart, and no telemetry row between them.\<close>

definition close_corners_session :: session where
  "close_corners_session =
     \<lparr>car_data = (\<lambda>_. [tick 0 280, tick 50 250, tick 99 120, tick 105 130, tick 160 200]),
      circuit_corners = [crn 1 100, crn 2 101, crn 3 150]\<rparr>"

text \<open>
  A lap that passes every corner of a circuit with a chicane: telemetry in ascending
  distance order up to 320, speeds between 120 and 260, and the corners 1, 2, 3 at 100,
  104 and 300; no telemetry row lies between the row at 98 and the corner at 104.
\<close>

definition chicane_session :: session where
  "chicane_session =
     \<lparr>car_data = (\<lambda>_. [tick 20 250, tick 80 180, tick 98 120, tick 110 125, tick 200 240,
                        tick 320 260]),
      circuit_corners = [crn 1 100, crn 2 104, crn 3 300]\<rparr>"

text \<open>
  Two drivers on a circuit of two corners; the telemetry of the second driver ends
  before the second corner.
\<close>

definition two_driver_session :: session where
  "two_driver_session =
     \<lparr>car_data = (\<lambda>d. if d = ''VER'' then [tick 50 200, tick 150 210, tick 250 220]
                        else [tick 50 190, tick 150 205]),
      circuit_corners = [crn 1 100, crn 2 200]\<rparr>"


text \<open>Three corners, four telemetry rows, one row between two corners.\<close>

definition sweep_telemetry :: "telemetry_tick list" where
  "sweep_telemetry = [tick 50 100, tick 150 110, tick 250 120, tick 350 130]"

definition sweep_corners :: "corner list" where
  "sweep_corners = [crn 1 100, crn 2 200, crn 3 300]"

text \<open>One driver whose nine laps carry the stint numbers 1, 1, 1, 2, 2, 3, 3, 3, 3.\<close>

definition example_event :: event_data where
  "example_event =
     \<lparr>laps = map (\<lambda>(n, s, c). \<lparr>Driver = ''VER'', Stint = Some s, Compound = Some c, LapNumber = n\<rparr>)
               [(1, 1, ''SOFT''), (2, 1, ''SOFT''), (3, 1, ''SOFT''), (4, 2, ''MEDIUM''),
                (5, 2, ''MEDIUM''), (6, 3, ''HARD''), (7, 3, ''HARD''), (8, 3, ''HARD''),
                (9, 3, ''HARD'')],
      drivers = [''VER''], quali_abbreviations = [''VER''], race_abbreviations = [''VER'']\<rparr>"

text \<open>
  Four drivers with laps; one is missing from the qualifying results, one from the race
  results.
\<close>

definition merge_event :: event_data where
  "merge_event =
     \<lparr>laps = map (\<lambda>(d, s, c). \<lparr>Driver = d, Stint = Some s, Compound = Some c, LapNumber = 1\<rparr>)
               [(''VER'', 1, ''SOFT''), (''HAM'', 1, ''MEDIUM''), (''VER'', 2, ''HARD''),
                (''LEC'', 1, ''SOFT''), (''SAI'', 1, ''SOFT'')],
      drivers = [''VER'', ''HAM'', ''LEC'', ''SAI''],
      quali_abbreviations = [''HAM'', ''VER'', ''SAI''],
      race_abbreviations = [''VER'', ''LEC'', ''HAM'']\<rparr>"

text \<open>
  Two drivers. The last lap of the first is on a third stint and carries no compound;
  the only lap of the second carries the stint number 0.
\<close>

definition missing_compound_event :: event_data where
  "missing_compound_event =
     \<lparr>laps = [\<lparr>Driver = ''VER'', Stint = Some 1, Compound = Some ''SOFT'', LapNumber = 1\<rparr>,
              \<lparr>Driver = ''VER'', Stint = Some 2, Compound = Some ''HARD'', LapNumber = 2\<rparr>,
              \<lparr>Driver = ''VER'', Stint = Some 3, Compound = None, LapNumber = 3\<rparr>,
              \<lparr>Driver = ''HAM'', Stint = Some 0, Compound = Some ''SOFT'', LapNumber = 1\<rparr>],
      drivers = [''VER'', ''HAM''],
      quali_abbreviations = [''VER'', ''HAM''],
      race_abbreviations = [''VER'', ''HAM'']\<rparr>"

text \<open>One driver, listed twice in the qualifying results.\<close>

definition duplicate_quali_event :: event_data where
  "duplicate_quali_event =
     \<lparr>laps = [\<lparr>Driver = ''VER'', Stint = Some 1, Compound = Some ''SOFT'', LapNumber = 1\<rparr>],
      drivers = [''VER''],
      quali_abbreviations = [''VER'', ''VER''],
      race_abbreviations = [''VER'']\<rparr>"

section \<open>Properties\<close>

subsection \<open>Corner segmentation\<close>

text \<open>
  Claim C1. A corner whose distance interval holds no telemetry sample should give an
  explicit undefined average and let the computation go on. On the source it does not:
  two corners at 100 and 101 with no sample between them, and a later sample at 105,
  make the source divide \<^verbatim>\<open>0/0\<close> at the second corner, so the call ends with
  \<^verbatim>\<open>ZeroDivisionError\<close> and returns no frame at all.
\<close>

theorem empty_interval_raises_ZeroDivisionError:
  "get_avg_speed_between_corners close_corners_session ''VER'' = Inl ZeroDivisionError"
  by (simp add: get_avg_speed_between_corners_def close_corners_session_def initial_state_def
      corner_step_def tick_def crn_def)

text \<open>What one run of the inner loop computes, in closed form.\<close>

lemma telemetry_loop_char:
  "telemetry_loop cd st ts (acc, n, e, k, tk) =
     (length (takeWhile (\<lambda>t. \<not> cd < Distance t) ts) < length ts,
      acc + sum_list (map Speed (included cd st ts)),
      n + length (included cd st ts),
      (if included cd st ts = [] then e else Distance (last (included cd st ts))),
      k + scanned cd ts,
      tk @ included cd st ts)"
  by (induction ts arbitrary: acc n e k tk) (auto simp: included_def scanned_def Let_def)

lemma takeWhile_lt_length_iff: "length (takeWhile P xs) < length xs \<longleftrightarrow> (\<exists>x\<in>set xs. \<not> P x)"
  by (induction xs) auto

lemma broke_iff_reached:
  "length (takeWhile (\<lambda>t. \<not> corner_Distance c < Distance t) ts) < length ts \<longleftrightarrow> reached ts c"
  by (simp add: takeWhile_lt_length_iff reached_def)

lemma update_fresh: "k \<notin> fst ` set al \<Longrightarrow> AList.update k v al = al @ [(k, v)]"
  by (induction al) auto

lemma set_update_subset: "set (AList.update k v al) \<subseteq> insert (k, v) (set al)"
  by (induction al) auto

lemma corner_step_reached:
  assumes "reached tel c" "corner_step tel c s = Inr s1"
  shows "included (corner_Distance c) (start s) tel \<noteq> []"
    and "df s1 = AList.update (Number c)
           \<lparr>avg_speed = py_round2 (mean_speed (included (corner_Distance c) (start s) tel)),
            corner_number = Number c, start_dist = start s,
            end_dist = Distance (last (included (corner_Distance c) (start s) tel))\<rparr> (df s)"
    and "start s1 = Distance (last (included (corner_Distance c) (start s) tel))"
    and "visits s1 = visits s + scanned (corner_Distance c) tel"
    and "averaged s1 = AList.update (Number c) (included (corner_Distance c) (start s) tel)
           (averaged s)"
  using assms
  by (auto simp: corner_step_def telemetry_loop_char broke_iff_reached mean_speed_def
      split: if_splits)

lemma corner_step_unreached:
  assumes "\<not> reached tel c" "corner_step tel c s = Inr s1"
  shows "df s1 = df s" and "start s1 = start s"
    and "visits s1 = visits s + scanned (corner_Distance c) tel"
    and "averaged s1 = averaged s"
  using assms
  by (auto simp: corner_step_def telemetry_loop_char broke_iff_reached split: if_splits)

text \<open>The only way a corner makes the call fail: it is reached and its interval is empty.\<close>

lemma corner_step_raises_iff:
  "corner_step tel c s = Inl e \<longleftrightarrow>
     e = ZeroDivisionError \<and> reached tel c \<and> included (corner_Distance c) (start s) tel = []"
  by (auto simp: corner_step_def telemetry_loop_char broke_iff_reached
      split: if_splits bool.splits)

lemma corners_loop_Cons_Inr:
  assumes "corners_loop tel (c # cs) s = Inr s'"
  obtains s1 where "corner_step tel c s = Inr s1" and "corners_loop tel cs s1 = Inr s'"
  using assms by (auto split: sum.splits)

lemma get_avg_speed_between_corners_Inr:
  assumes "get_avg_speed_between_corners sess d = Inr out"
  obtains s' where "corners_loop (car_data sess d) (circuit_corners sess) initial_state = Inr s'"
    and "out = df s'"
  using assms by (auto simp: get_avg_speed_between_corners_def split: sum.splits)

subsubsection \<open>Rounding and means\<close>

lemma round_half_even_ge: "of_int n \<le> x \<Longrightarrow> n \<le> round_half_even x"
  unfolding round_half_even_def Let_def by (auto simp: le_floor_iff) linarith+

lemma round_half_even_le:
  assumes "x \<le> of_int n"
  shows "round_half_even x \<le> n"
proof -
  have f: "\<lfloor>x\<rfloor> \<le> n" using assms by (simp add: floor_le_iff)
  have "\<lfloor>x\<rfloor> + 1 \<le> n" if "\<not> x - of_int \<lfloor>x\<rfloor> < 1 / 2"
  proof -
    have "of_int \<lfloor>x\<rfloor> < x" using that by linarith
    then have "of_int \<lfloor>x\<rfloor> < (of_int n :: rat)" using \<open>x \<le> of_int n\<close> by linarith
    then show ?thesis by simp
  qed
  with f show ?thesis unfolding round_half_even_def Let_def by auto
qed

lemma py_round2_nonneg: "0 \<le> x \<Longrightarrow> 0 \<le> py_round2 x"
  using round_half_even_ge[of 0 "x * 100"] by (simp add: py_round2_def)

lemma py_round2_le:
  assumes "x \<le> of_int m"
  shows "py_round2 x \<le> of_int m"
proof -
  from assms have "x * 100 \<le> of_int (m * 100)" by simp
  then have "round_half_even (x * 100) \<le> m * 100" by (rule round_half_even_le)
  then have "(of_int (round_half_even (x * 100)) :: rat) \<le> of_int (m * 100)"
    by (simp only: of_int_le_iff)
  then show ?thesis by (simp add: py_round2_def divide_le_eq)
qed

lemma mean_speed_bounds:
  assumes "ts \<noteq> []" "\<forall>t\<in>set ts. lo \<le> Speed t \<and> Speed t \<le> hi"
  shows "lo \<le> mean_speed ts \<and> mean_speed ts \<le> hi"
proof -
  have "of_nat (length ts) * lo \<le> sum_list (map Speed ts)
      \<and> sum_list (map Speed ts) \<le> of_nat (length ts) * hi"
    using assms(2) by (induction ts) (auto simp: algebra_simps)
  moreover have "0 < (of_nat (length ts) :: rat)" using assms(1) by simp
  ultimately show ?thesis
    by (simp add: mean_speed_def pos_le_divide_eq pos_divide_le_eq mult.commute)
qed

lemma included_subset: "set (included cd st tel) \<subseteq> set tel"
  by (auto simp: included_def dest: set_takeWhileD)

subsubsection \<open>The rows of the frame\<close>

lemma corners_loop_labels:
  "corners_loop tel cs s = Inr s' \<Longrightarrow> distinct (map Number cs) \<Longrightarrow>
   \<forall>c\<in>set cs. Number c \<notin> fst ` set (df s) \<Longrightarrow>
   map fst (df s') = map fst (df s) @ map Number (filter (reached tel) cs)"
proof (induction cs arbitrary: s)
  case Nil
  then show ?case by simp
next
  case (Cons c cs)
  from Cons.prems(1) obtain s1 where s1: "corner_step tel c s = Inr s1"
    and rest: "corners_loop tel cs s1 = Inr s'"
    by (rule corners_loop_Cons_Inr)
  have dist: "distinct (map Number cs)" using Cons.prems(2) by simp
  have fresh: "Number c \<notin> fst ` set (df s)" using Cons.prems(3) by simp
  have others: "\<forall>c'\<in>set cs. Number c' \<noteq> Number c"
  proof (intro ballI notI)
    fix c' assume "c' \<in> set cs" and "Number c' = Number c"
    then have "Number c \<in> Number ` set cs" by (metis imageI)
    with Cons.prems(2) show False by simp
  qed
  show ?case
  proof (cases "reached tel c")
    case True
    let ?inc = "included (corner_Distance c) (start s) tel"
    have d1: "df s1 = df s @ [(Number c, \<lparr>avg_speed = py_round2 (mean_speed ?inc),
            corner_number = Number c, start_dist = start s,
            end_dist = Distance (last ?inc)\<rparr>)]"
      using corner_step_reached(2)[OF True s1] fresh by (simp add: update_fresh)
    have "fst ` set (df s1) = insert (Number c) (fst ` set (df s))"
      using d1 by simp
    with others Cons.prems(3) have fresh1: "\<forall>c'\<in>set cs. Number c' \<notin> fst ` set (df s1)"
      by simp
    from Cons.IH[OF rest dist fresh1] d1 True show ?thesis by simp
  next
    case False
    from corner_step_unreached(1)[OF False s1] have d1: "df s1 = df s" .
    with Cons.prems(3) have "\<forall>c'\<in>set cs. Number c' \<notin> fst ` set (df s1)" by simp
    from Cons.IH[OF rest dist this] d1 False show ?thesis by simp
  qed
qed

lemma corners_loop_rows:
  assumes "corners_loop tel cs s = Inr s'"
    and "\<forall>t\<in>set tel. 0 \<le> Speed t \<and> Speed t \<le> of_int m"
    and "\<forall>kr\<in>set (df s). corner_number (snd kr) = fst kr
           \<and> 0 \<le> avg_speed (snd kr) \<and> avg_speed (snd kr) \<le> of_int m"
  shows "\<forall>kr\<in>set (df s'). corner_number (snd kr) = fst kr
           \<and> 0 \<le> avg_speed (snd kr) \<and> avg_speed (snd kr) \<le> of_int m"
  using assms(1,3)
proof (induction cs arbitrary: s)
  case Nil
  then show ?case by simp
next
  case (Cons c cs)
  from Cons.prems(1) obtain s1 where s1: "corner_step tel c s = Inr s1"
    and rest: "corners_loop tel cs s1 = Inr s'"
    by (rule corners_loop_Cons_Inr)
  let ?Q = "\<lambda>kr. corner_number (snd kr) = fst kr
           \<and> 0 \<le> avg_speed (snd kr) \<and> avg_speed (snd kr) \<le> of_int m"
  have "\<forall>kr\<in>set (df s1). ?Q kr"
  proof (cases "reached tel c")
    case True
    let ?inc = "included (corner_Distance c) (start s) tel"
    let ?row = "\<lparr>avg_speed = py_round2 (mean_speed ?inc), corner_number = Number c,
                 start_dist = start s, end_dist = Distance (last ?inc)\<rparr>"
    have ne: "?inc \<noteq> []" by (rule corner_step_reached(1)[OF True s1])
    have "\<forall>t\<in>set ?inc. 0 \<le> Speed t \<and> Speed t \<le> of_int m"
      using assms(2) included_subset by blast
    from mean_speed_bounds[OF ne this]
    have "0 \<le> py_round2 (mean_speed ?inc) \<and> py_round2 (mean_speed ?inc) \<le> of_int m"
      by (simp add: py_round2_nonneg py_round2_le)
    then have new: "?Q (Number c, ?row)" by simp
    have "df s1 = AList.update (Number c) ?row (df s)"
      by (rule corner_step_reached(2)[OF True s1])
    then have sub: "set (df s1) \<subseteq> insert (Number c, ?row) (set (df s))"
      by (simp only: set_update_subset)
    show ?thesis
    proof
      fix kr assume "kr \<in> set (df s1)"
      with sub have "kr = (Number c, ?row) \<or> kr \<in> set (df s)" by blast
      then show "?Q kr" using new Cons.prems(2) by blast
    qed
  next
    case False
    then show ?thesis using corner_step_unreached(1)[OF False s1] Cons.prems(2) by simp
  qed
  from Cons.IH[OF rest this] show ?case .
qed

text \<open>The frames of the two drivers of the example session.\<close>

lemma two_driver_session_VER:
  "get_avg_speed_between_corners two_driver_session ''VER''
     = Inr [(1, \<lparr>avg_speed = 200, corner_number = 1, start_dist = 0, end_dist = 50\<rparr>),
            (2, \<lparr>avg_speed = 210, corner_number = 2, start_dist = 50, end_dist = 150\<rparr>)]"
  by (simp add: get_avg_speed_between_corners_def two_driver_session_def initial_state_def
      corner_step_def tick_def crn_def py_round2_def round_half_even_def)

lemma two_driver_session_HAM:
  "get_avg_speed_between_corners two_driver_session ''HAM''
     = Inr [(1, \<lparr>avg_speed = 190, corner_number = 1, start_dist = 0, end_dist = 50\<rparr>)]"
  by (simp add: get_avg_speed_between_corners_def two_driver_session_def initial_state_def
      corner_step_def tick_def crn_def py_round2_def round_half_even_def)

text \<open>
  Whenever the call returns a frame, and the corners of the circuit are listed with
  strictly ascending numbers, the frame has exactly one row per reached corner, in the
  order of the corners, so with ascending corner numbers; the row of a corner carries
  its number; and with all telemetry speeds within \<open>[0, vmax]\<close> every average is within
  \<open>[0, vmax]\<close>. On a lap that passes every corner this is one row per corner of the
  circuit.
\<close>

lemma returned_frame_rows:
  assumes "get_avg_speed_between_corners sess d = Inr out"
    and "sorted_wrt (<) (map Number (circuit_corners sess))"
    and "\<forall>t\<in>set (car_data sess d). 0 \<le> Speed t \<and> Speed t \<le> of_int vmax"
  shows "map fst out = map Number (filter (reached (car_data sess d)) (circuit_corners sess))
     \<and> sorted_wrt (<) (map fst out)
     \<and> (\<forall>kr\<in>set out. corner_number (snd kr) = fst kr
            \<and> 0 \<le> avg_speed (snd kr) \<and> avg_speed (snd kr) \<le> of_int vmax)"
proof -
  from assms(1) obtain s'
    where s': "corners_loop (car_data sess d) (circuit_corners sess) initial_state = Inr s'"
    and out: "out = df s'"
    by (rule get_avg_speed_between_corners_Inr)
  have dist: "distinct (map Number (circuit_corners sess))"
    using assms(2) strict_sorted_iff by blast
  have "map fst (df s') = map fst (df initial_state)
          @ map Number (filter (reached (car_data sess d)) (circuit_corners sess))"
    by (rule corners_loop_labels[OF s' dist]) (simp add: initial_state_def)
  then have labels:
    "map fst out = map Number (filter (reached (car_data sess d)) (circuit_corners sess))"
    by (simp add: out initial_state_def)
  have "sorted_wrt (<) (map Number (filter (reached (car_data sess d)) (circuit_corners sess)))"
    using assms(2) by (simp add: sorted_wrt_map sorted_wrt_filter)
  with labels have asc: "sorted_wrt (<) (map fst out)" by simp
  have rows: "\<forall>kr\<in>set (df s'). corner_number (snd kr) = fst kr
                \<and> 0 \<le> avg_speed (snd kr) \<and> avg_speed (snd kr) \<le> of_int vmax"
    by (rule corners_loop_rows[OF s' assms(3)]) (simp add: initial_state_def)
  from labels asc rows show ?thesis by (simp add: out)
qed

lemma returned_frame_one_row_per_corner:
  assumes "get_avg_speed_between_corners sess d = Inr out"
    and "sorted_wrt (<) (map Number (circuit_corners sess))"
    and "\<forall>c\<in>set (circuit_corners sess). reached (car_data sess d) c"
  shows "map fst out = map Number (circuit_corners sess)"
proof -
  from assms(1) obtain s'
    where s': "corners_loop (car_data sess d) (circuit_corners sess) initial_state = Inr s'"
    and out: "out = df s'"
    by (rule get_avg_speed_between_corners_Inr)
  have dist: "distinct (map Number (circuit_corners sess))"
    using assms(2) strict_sorted_iff by blast
  have "map fst (df s') = map fst (df initial_state)
          @ map Number (filter (reached (car_data sess d)) (circuit_corners sess))"
    by (rule corners_loop_labels[OF s' dist]) (simp add: initial_state_def)
  moreover have "filter (reached (car_data sess d)) (circuit_corners sess) = circuit_corners sess"
    using assms(3) by (simp add: filter_id_conv)
  ultimately show ?thesis by (simp add: out initial_state_def)
qed

text \<open>
  Claim C2. One row per corner of the circuit, corner numbers ascending, each average
  within bounds or undefined: this is what the function is written to deliver, and where
  it returns a frame for a lap that passes every corner it does
  (lemmas \<open>returned_frame_rows\<close> and \<open>returned_frame_one_row_per_corner\<close>). It does not
  always return one. On a lap in ascending distance order that passes every corner of
  the circuit, with corner numbers ascending and all speeds between 0 and 400, where no
  telemetry row lies between the last row before the first corner of a chicane and its
  second corner, the source has no undefined average to write for the second corner: it
  divides \<^verbatim>\<open>0/0\<close>, the call ends with \<^verbatim>\<open>ZeroDivisionError\<close>, and there is no row for
  any of the three corners.
\<close>

theorem lap_through_every_corner_yields_no_frame:
  "sorted (map Distance (car_data chicane_session ''VER''))
   \<and> list_all (\<lambda>t. 0 \<le> Speed t \<and> Speed t \<le> 400) (car_data chicane_session ''VER'')
   \<and> map Number (circuit_corners chicane_session) = [1, 2, 3]
   \<and> list_all (reached (car_data chicane_session ''VER'')) (circuit_corners chicane_session)
   \<and> get_avg_speed_between_corners chicane_session ''VER'' = Inl ZeroDivisionError"
  by (simp add: get_avg_speed_between_corners_def chicane_session_def initial_state_def
      corner_step_def tick_def crn_def reached_def)

subsubsection \<open>The interval of a corner\<close>










subsubsection \<open>The cost of the two loops\<close>

lemma scanned_le: "scanned cd tel \<le> length tel"
  by (simp add: scanned_def Let_def)

lemma corners_loop_visits:
  "corners_loop tel cs s = Inr s' \<Longrightarrow>
     visits s' = visits s + sum_list (map (\<lambda>c. scanned (corner_Distance c) tel) cs)"
proof (induction cs arbitrary: s)
  case Nil
  then show ?case by simp
next
  case (Cons c cs)
  from Cons.prems obtain s1 where s1: "corner_step tel c s = Inr s1"
    and rest: "corners_loop tel cs s1 = Inr s'"
    by (rule corners_loop_Cons_Inr)
  have "visits s1 = visits s + scanned (corner_Distance c) tel"
    using s1 corner_step_reached(4) corner_step_unreached(3) by blast
  with Cons.IH[OF rest] show ?case by simp
qed

lemma sum_list_scanned_le:
  "sum_list (map (\<lambda>c. scanned (corner_Distance c) tel) cs) \<le> length cs * length tel"
  by (induction cs) (auto simp: scanned_le add_le_mono)

lemma scanned_unreached: "\<not> reached tel c \<Longrightarrow> scanned (corner_Distance c) tel = length tel"
  using broke_iff_reached[of c tel] by (simp add: scanned_def Let_def)

lemma corners_loop_unreached:
  "\<forall>c\<in>set cs. \<not> reached tel c \<Longrightarrow>
     \<exists>s'. corners_loop tel cs s = Inr s' \<and> visits s' = visits s + length cs * length tel"
proof (induction cs arbitrary: s)
  case Nil
  then show ?case by simp
next
  case (Cons c cs)
  have nr: "\<not> reached tel c" using Cons.prems by simp
  have "\<nexists>e. corner_step tel c s = Inl e" using nr by (simp add: corner_step_raises_iff)
  then obtain s1 where s1: "corner_step tel c s = Inr s1"
    by (cases "corner_step tel c s") auto
  have v1: "visits s1 = visits s + length tel"
    using corner_step_unreached(3)[OF nr s1] scanned_unreached[OF nr] by simp
  from Cons.IH[of s1] Cons.prems obtain s' where "corners_loop tel cs s1 = Inr s'"
    and "visits s' = visits s1 + length cs * length tel" by auto
  with s1 v1 show ?case by simp
qed

lemma rows_looked_at_unreached:
  "rows_looked_at (replicate n (tick 0 0)) (replicate m (crn 1 1)) = Inr (m * n)"
proof -
  have "\<forall>c\<in>set (replicate m (crn 1 1)). \<not> reached (replicate n (tick 0 0)) c"
    by (auto simp: reached_def tick_def crn_def)
  from corners_loop_unreached[OF this, of initial_state]
  show ?thesis by (auto simp: rows_looked_at_def initial_state_def)
qed

text \<open>
  No bound linear in samples plus corners holds: \<open>m\<close> corners that the telemetry does not
  reach make the loops look at all \<open>n\<close> rows \<open>m\<close> times.
\<close>

lemma nested_scan_has_no_linear_bound:
  "\<not> (\<exists>k. \<forall>tel cs n. rows_looked_at tel cs = Inr n \<longrightarrow> n \<le> k * (length tel + length cs))"
proof
  assume "\<exists>k. \<forall>tel cs n. rows_looked_at tel cs = Inr n \<longrightarrow> n \<le> k * (length tel + length cs)"
  then obtain k where k: "\<And>tel cs n. rows_looked_at tel cs = Inr n \<Longrightarrow> n \<le> k * (length tel + length cs)"
    by blast
  let ?N = "2 * k + 1"
  from k[OF rows_looked_at_unreached[of ?N ?N]]
  have "?N * ?N \<le> k * (?N + ?N)" by simp
  then have "?N * ?N \<le> (2 * k) * ?N" by (simp add: algebra_simps)
  then have "?N \<le> 2 * k" by simp
  then show False by simp
qed

text \<open>
  Claim C9, as stated: one ordered sweep, linear in samples plus corners, the telemetry
  never scanned again for a corner. The source has two nested \<^verbatim>\<open>for\<close> loops and starts
  the inner one at the first telemetry row for every corner. With four rows and three
  corners it looks at 2 + 3 + 4 = 9 rows, more than the 4 + 3 of a single sweep, and for
  the last corner at all four rows again.
\<close>

theorem telemetry_rescanned_for_each_corner:
  "rows_looked_at sweep_telemetry sweep_corners = Inr 9
   \<and> length sweep_telemetry + length sweep_corners = 7
   \<and> scanned 300 sweep_telemetry = length sweep_telemetry"
  by (simp add: rows_looked_at_def sweep_telemetry_def sweep_corners_def initial_state_def
      corner_step_def tick_def crn_def scanned_def)

text \<open>
  Claim C9, amended. The segmentation is a nested scan: for every corner the inner loop
  starts again at the first telemetry row and looks at the rows up to and including the
  first one beyond the corner (at all rows when there is none). When the call returns,
  the number of rows looked at is the sum of these counts over the corners, at most
  corners times samples.
\<close>

theorem rows_looked_at_is_sum_over_corners:
  assumes "rows_looked_at tel cs = Inr n"
  shows "n = sum_list (map (\<lambda>c. scanned (corner_Distance c) tel) cs)
     \<and> n \<le> length cs * length tel"
proof -
  from assms obtain s' where s': "corners_loop tel cs initial_state = Inr s'"
    and n: "n = visits s'"
    by (auto simp: rows_looked_at_def split: sum.splits)
  from corners_loop_visits[OF s']
  have "n = sum_list (map (\<lambda>c. scanned (corner_Distance c) tel) cs)"
    by (simp add: n initial_state_def)
  then show ?thesis using sum_list_scanned_le[of tel cs] by simp
qed

theorem rows_looked_at_is_sum_over_corners_witness:
  "rows_looked_at sweep_telemetry sweep_corners = Inr 9
   \<and> sum_list (map (\<lambda>c. scanned (corner_Distance c) sweep_telemetry) sweep_corners) = 9
   \<and> (9 :: nat) \<le> length sweep_corners * length sweep_telemetry"
proof -
  have h: "rows_looked_at sweep_telemetry sweep_corners = Inr 9"
    by (simp add: rows_looked_at_def sweep_telemetry_def sweep_corners_def initial_state_def
        corner_step_def tick_def crn_def)
  from rows_looked_at_is_sum_over_corners[OF h] h show ?thesis by simp
qed

subsection \<open>Comparative analytics\<close>

lemma corners_loop_distinct:
  "corners_loop tel cs s = Inr s' \<Longrightarrow> distinct (map fst (df s)) \<Longrightarrow> distinct (map fst (df s'))"
proof (induction cs arbitrary: s)
  case Nil
  then show ?case by simp
next
  case (Cons c cs)
  from Cons.prems(1) obtain s1 where s1: "corner_step tel c s = Inr s1"
    and rest: "corners_loop tel cs s1 = Inr s'"
    by (rule corners_loop_Cons_Inr)
  have "distinct (map fst (df s1))"
  proof (cases "reached tel c")
    case True
    show ?thesis
      using corner_step_reached(2)[OF True s1] Cons.prems(2) by (simp add: distinct_update)
  next
    case False
    show ?thesis using corner_step_unreached(1)[OF False s1] Cons.prems(2) by simp
  qed
  from Cons.IH[OF rest this] show ?case .
qed

lemma frame_labels_distinct:
  assumes "get_avg_speed_between_corners sess d = Inr out"
  shows "distinct (map fst out)"
proof -
  from assms obtain s'
    where s': "corners_loop (car_data sess d) (circuit_corners sess) initial_state = Inr s'"
    and out: "out = df s'"
    by (rule get_avg_speed_between_corners_Inr)
  from corners_loop_distinct[OF s'] show ?thesis by (simp add: out initial_state_def)
qed

lemma map_of_tabulate:
  "map_of (map (\<lambda>k. (k, g k)) ks) k = (if k \<in> set ks then Some (g k) else None)"
  by (induction ks) auto

lemma speed_diff_frame_tabulate:
  "speed_diff_frame df1 df2 =
     map (\<lambda>k. (k, diff_row_of (map_of df1 k) (map_of df2 k)))
       (map fst df1 @ filter (\<lambda>k. k \<notin> set (map fst df1)) (map fst df2))"
  by (simp add: speed_diff_frame_def concat_axis1_def)

lemma speed_diff_frame_keys:
  "map fst (speed_diff_frame df1 df2) = map fst df1 @ filter (\<lambda>k. k \<notin> set (map fst df1)) (map fst df2)"
  by (simp add: speed_diff_frame_tabulate comp_def)

lemma speed_diff_frame_labels: "fst ` set (speed_diff_frame df1 df2) = fst ` set df1 \<union> fst ` set df2"
proof -
  have "fst ` set (speed_diff_frame df1 df2) = set (map fst (speed_diff_frame df1 df2))" by simp
  also have "\<dots> = set (map fst df1) \<union> set (map fst df2)"
    unfolding speed_diff_frame_keys by auto
  finally show ?thesis by simp
qed

lemma speed_diff_at_frame:
  "speed_diff_at (speed_diff_frame df1 df2) k =
     (if k \<in> fst ` set df1 \<union> fst ` set df2
      then Some (nan_minus (map_option avg_speed (map_of df1 k)) (map_option avg_speed (map_of df2 k)))
      else None)"
  unfolding speed_diff_at_def speed_diff_frame_tabulate map_of_tabulate
  by (auto simp: diff_row_of_def)

lemma nan_minus_swap: "nan_minus a b = nan_neg (nan_minus b a)"
  by (cases a; cases b) (simp_all add: nan_minus_def nan_neg_def)

lemma get_avg_speed_diff_drivers_Inr:
  assumes "get_avg_speed_diff_drivers sess a b = Inr out"
  obtains df1 df2 where "get_avg_speed_between_corners sess a = Inr df1"
    and "get_avg_speed_between_corners sess b = Inr df2" and "a \<noteq> b"
    and "out = speed_diff_frame df1 df2"
proof -
  from assms obtain df1 where 1: "get_avg_speed_between_corners sess a = Inr df1"
    by (cases "get_avg_speed_between_corners sess a")
       (simp_all add: get_avg_speed_diff_drivers_def)
  from assms 1 obtain df2 where 2: "get_avg_speed_between_corners sess b = Inr df2"
    by (cases "get_avg_speed_between_corners sess b")
       (simp_all add: get_avg_speed_diff_drivers_def)
  from assms 1 2 have ne: "a \<noteq> b"
    by (auto simp add: get_avg_speed_diff_drivers_def)
  with assms 1 2 have "out = speed_diff_frame df1 df2"
    by (simp add: get_avg_speed_diff_drivers_def speed_diff_frame_def)
  with 1 2 ne show ?thesis by (rule that)
qed

text \<open>
  Claim C3, as stated: an inner join, a corner number present in only one of the two
  frames gives no output row. The source concatenates with \<^verbatim>\<open>pd.concat(..., axis=1)\<close>,
  whose default is the outer join: the row is kept and the missing side is \<^verbatim>\<open>NaN\<close>.
  Here the second driver's frame has no row for corner 2, and the output has one, with
  an undefined difference.
\<close>

theorem corner_of_one_frame_is_kept:
  "get_avg_speed_between_corners two_driver_session ''HAM''
     = Inr [(1, \<lparr>avg_speed = 190, corner_number = 1, start_dist = 0, end_dist = 50\<rparr>)]
   \<and> get_avg_speed_diff_drivers two_driver_session ''VER'' ''HAM''
     = Inr [(1, \<lparr>avg_speed_1 = Some 200, corner_number_1 = Some 1, start_dist_1 = Some 0,
                 end_dist_1 = Some 50, avg_speed_2 = Some 190, start_dist_2 = Some 0,
                 end_dist_2 = Some 50, speed_diff = Some 10\<rparr>),
            (2, \<lparr>avg_speed_1 = Some 210, corner_number_1 = Some 2, start_dist_1 = Some 50,
                 end_dist_1 = Some 150, avg_speed_2 = None, start_dist_2 = None,
                 end_dist_2 = None, speed_diff = None\<rparr>)]"
  by (simp add: get_avg_speed_diff_drivers_def two_driver_session_VER two_driver_session_HAM
      speed_diff_frame_def concat_axis1_def diff_row_of_def nan_minus_def)

text \<open>
  Claim C3, amended. For two different drivers whose segmentations succeed, the output
  is aligned by corner number with outer-join semantics: it has a row for every corner
  number of either frame; where both frames have the corner, \<^verbatim>\<open>speed_diff\<close> is the first
  driver's average minus the second's; where only one has it, the row is kept and its
  \<^verbatim>\<open>speed_diff\<close> is undefined (\<^verbatim>\<open>NaN\<close>).
\<close>

theorem speed_diff_is_outer_join:
  assumes a: "get_avg_speed_between_corners sess a = Inr df1"
    and b: "get_avg_speed_between_corners sess b = Inr df2"
    and ne: "a \<noteq> b"
  shows "\<exists>out. get_avg_speed_diff_drivers sess a b = Inr out
     \<and> fst ` set out = fst ` set df1 \<union> fst ` set df2
     \<and> (\<forall>k r1 r2. (k, r1) \<in> set df1 \<and> (k, r2) \<in> set df2 \<longrightarrow>
            speed_diff_at out k = Some (Some (avg_speed r1 - avg_speed r2)))
     \<and> (\<forall>k. k \<in> fst ` set df1 \<union> fst ` set df2 \<and> (k \<notin> fst ` set df1 \<or> k \<notin> fst ` set df2) \<longrightarrow>
            speed_diff_at out k = Some None)"
proof -
  have out: "get_avg_speed_diff_drivers sess a b = Inr (speed_diff_frame df1 df2)"
    using a b ne by (simp add: get_avg_speed_diff_drivers_def speed_diff_frame_def)
  have d1: "distinct (map fst df1)" and d2: "distinct (map fst df2)"
    using frame_labels_distinct a b by blast+
  have both: "speed_diff_at (speed_diff_frame df1 df2) k = Some (Some (avg_speed r1 - avg_speed r2))"
    if "(k, r1) \<in> set df1" "(k, r2) \<in> set df2" for k r1 r2
  proof -
    have "map_of df1 k = Some r1" "map_of df2 k = Some r2"
      using that d1 d2 by simp_all
    moreover have "k \<in> fst ` set df1" using that(1) by force
    ultimately show ?thesis by (simp add: speed_diff_at_frame nan_minus_def)
  qed
  have one: "speed_diff_at (speed_diff_frame df1 df2) k = Some None"
    if "k \<in> fst ` set df1 \<union> fst ` set df2" "k \<notin> fst ` set df1 \<or> k \<notin> fst ` set df2" for k
  proof -
    from that(2) have "map_of df1 k = None \<or> map_of df2 k = None"
      by (simp add: map_of_eq_None_iff)
    then have "nan_minus (map_option avg_speed (map_of df1 k)) (map_option avg_speed (map_of df2 k)) = None"
      by (auto simp: nan_minus_def split: option.splits)
    with that(1) show ?thesis by (simp add: speed_diff_at_frame)
  qed
  from out speed_diff_frame_labels both one show ?thesis by blast
qed

theorem speed_diff_is_outer_join_witness:
  "\<exists>out. get_avg_speed_diff_drivers two_driver_session ''VER'' ''HAM'' = Inr out
     \<and> fst ` set out = {1, 2}
     \<and> speed_diff_at out 1 = Some (Some 10)
     \<and> speed_diff_at out 2 = Some None"
proof -
  let ?df1 = "[(1, \<lparr>avg_speed = 200, corner_number = 1, start_dist = 0, end_dist = 50\<rparr>),
               (2, \<lparr>avg_speed = 210, corner_number = 2, start_dist = 50, end_dist = 150\<rparr>)]"
  let ?df2 = "[(1 :: int, \<lparr>avg_speed = 190, corner_number = 1, start_dist = 0, end_dist = 50\<rparr>)]"
  have h1: "get_avg_speed_between_corners two_driver_session ''VER'' = Inr ?df1"
    by (rule two_driver_session_VER)
  have h2: "get_avg_speed_between_corners two_driver_session ''HAM'' = Inr ?df2"
    by (rule two_driver_session_HAM)
  have h3: "''VER'' \<noteq> ''HAM''" by simp
  from speed_diff_is_outer_join[OF h1 h2 h3] obtain out
    where all: "get_avg_speed_diff_drivers two_driver_session ''VER'' ''HAM'' = Inr out
     \<and> fst ` set out = fst ` set ?df1 \<union> fst ` set ?df2
     \<and> (\<forall>k r1 r2. (k, r1) \<in> set ?df1 \<and> (k, r2) \<in> set ?df2 \<longrightarrow>
            speed_diff_at out k = Some (Some (avg_speed r1 - avg_speed r2)))
     \<and> (\<forall>k. k \<in> fst ` set ?df1 \<union> fst ` set ?df2
              \<and> (k \<notin> fst ` set ?df1 \<or> k \<notin> fst ` set ?df2) \<longrightarrow>
            speed_diff_at out k = Some None)" ..
  from all have o: "get_avg_speed_diff_drivers two_driver_session ''VER'' ''HAM'' = Inr out"
    by (rule conjunct1)
  from all have l: "fst ` set out = fst ` set ?df1 \<union> fst ` set ?df2"
    by (elim conjE)
  from all have both: "\<forall>k r1 r2. (k, r1) \<in> set ?df1 \<and> (k, r2) \<in> set ?df2 \<longrightarrow>
            speed_diff_at out k = Some (Some (avg_speed r1 - avg_speed r2))"
    by (elim conjE)
  from all have one: "\<forall>k. k \<in> fst ` set ?df1 \<union> fst ` set ?df2
              \<and> (k \<notin> fst ` set ?df1 \<or> k \<notin> fst ` set ?df2) \<longrightarrow>
            speed_diff_at out k = Some None"
    by (elim conjE)
  have l': "fst ` set out = {1, 2}" using l by auto
  have m1: "(1, \<lparr>avg_speed = 200, corner_number = 1, start_dist = 0, end_dist = 50\<rparr>) \<in> set ?df1
      \<and> (1, \<lparr>avg_speed = 190, corner_number = 1, start_dist = 0, end_dist = 50\<rparr>) \<in> set ?df2"
    by simp
  have d1: "speed_diff_at out 1 = Some (Some 10)"
    using both[rule_format, OF m1] by simp
  have m2: "2 \<in> fst ` set ?df1 \<union> fst ` set ?df2
      \<and> (2 \<notin> fst ` set ?df1 \<or> 2 \<notin> fst ` set ?df2)"
    by simp
  have d2: "speed_diff_at out 2 = Some None"
    using one[rule_format, OF m2] .
  from o l' d1 d2 show ?thesis by (intro exI[of _ out] conjI)
qed

text \<open>
  Claim C4. Whenever both calls return, the differential of \<open>(A, B)\<close> and that of
  \<open>(B, A)\<close> have rows for the same corner numbers, and at every corner number the
  \<^verbatim>\<open>speed_diff\<close> of one is the negation of the other's (an undefined difference stays
  undefined).
\<close>

theorem speed_diff_antisymmetric:
  assumes "get_avg_speed_diff_drivers sess a b = Inr d1"
    and "get_avg_speed_diff_drivers sess b a = Inr d2"
  shows "fst ` set d1 = fst ` set d2
     \<and> (\<forall>k. speed_diff_at d1 k = map_option nan_neg (speed_diff_at d2 k))"
proof -
  from assms(1) obtain df1 df2 where 1: "get_avg_speed_between_corners sess a = Inr df1"
    and 2: "get_avg_speed_between_corners sess b = Inr df2" and d1: "d1 = speed_diff_frame df1 df2"
    by (rule get_avg_speed_diff_drivers_Inr)
  from assms(2) obtain df2' df1' where "get_avg_speed_between_corners sess b = Inr df2'"
    and "get_avg_speed_between_corners sess a = Inr df1'" and "d2 = speed_diff_frame df2' df1'"
    by (rule get_avg_speed_diff_drivers_Inr)
  with 1 2 have d2: "d2 = speed_diff_frame df2 df1" by simp
  have "fst ` set d1 = fst ` set d2"
    unfolding d1 d2 speed_diff_frame_labels by (rule Un_commute)
  moreover have "\<forall>k. speed_diff_at d1 k = map_option nan_neg (speed_diff_at d2 k)"
  proof
    fix k
    let ?x = "map_option avg_speed (map_of df1 k)" and ?y = "map_option avg_speed (map_of df2 k)"
    have swap: "nan_minus ?x ?y = nan_neg (nan_minus ?y ?x)" by (rule nan_minus_swap)
    show "speed_diff_at d1 k = map_option nan_neg (speed_diff_at d2 k)"
    proof (cases "k \<in> fst ` set df1 \<union> fst ` set df2")
      case True
      then have "k \<in> fst ` set df2 \<union> fst ` set df1" by blast
      with True swap show ?thesis by (simp only: d1 d2 speed_diff_at_frame if_True option.map)
    next
      case False
      then have "k \<notin> fst ` set df2 \<union> fst ` set df1" by blast
      with False show ?thesis by (simp only: d1 d2 speed_diff_at_frame if_False option.map)
    qed
  qed
ultimately show ?thesis by (rule conjI)
qed

theorem speed_diff_antisymmetric_witness:
  "\<exists>d1 d2. get_avg_speed_diff_drivers two_driver_session ''VER'' ''HAM'' = Inr d1
     \<and> get_avg_speed_diff_drivers two_driver_session ''HAM'' ''VER'' = Inr d2
     \<and> speed_diff_at d1 1 = Some (Some 10)
     \<and> speed_diff_at d2 1 = Some (Some (- 10))
     \<and> speed_diff_at d1 1 = map_option nan_neg (speed_diff_at d2 1)"
proof -
  let ?d1 = "[(1, \<lparr>avg_speed_1 = Some 200, corner_number_1 = Some 1, start_dist_1 = Some 0,
                 end_dist_1 = Some 50, avg_speed_2 = Some 190, start_dist_2 = Some 0,
                 end_dist_2 = Some 50, speed_diff = Some 10\<rparr>),
            (2, \<lparr>avg_speed_1 = Some 210, corner_number_1 = Some 2, start_dist_1 = Some 50,
                 end_dist_1 = Some 150, avg_speed_2 = None, start_dist_2 = None,
                 end_dist_2 = None, speed_diff = None\<rparr>)]"
  let ?d2 = "[(1, \<lparr>avg_speed_1 = Some 190, corner_number_1 = Some 1, start_dist_1 = Some 0,
                 end_dist_1 = Some 50, avg_speed_2 = Some 200, start_dist_2 = Some 0,
                 end_dist_2 = Some 50, speed_diff = Some (- 10)\<rparr>),
            (2, \<lparr>avg_speed_1 = None, corner_number_1 = None, start_dist_1 = None,
                 end_dist_1 = None, avg_speed_2 = Some 210, start_dist_2 = Some 50,
                 end_dist_2 = Some 150, speed_diff = None\<rparr>)]"
  have h1: "get_avg_speed_diff_drivers two_driver_session ''VER'' ''HAM'' = Inr ?d1"
    by (simp add: get_avg_speed_diff_drivers_def two_driver_session_VER two_driver_session_HAM
      speed_diff_frame_def concat_axis1_def diff_row_of_def nan_minus_def)
  have h2: "get_avg_speed_diff_drivers two_driver_session ''HAM'' ''VER'' = Inr ?d2"
    by (simp add: get_avg_speed_diff_drivers_def two_driver_session_VER two_driver_session_HAM
      speed_diff_frame_def concat_axis1_def diff_row_of_def nan_minus_def)
  have "speed_diff_at ?d1 1 = map_option nan_neg (speed_diff_at ?d2 1)"
    using speed_diff_antisymmetric[OF h1 h2] by blast
  moreover have "speed_diff_at ?d1 1 = Some (Some 10)" "speed_diff_at ?d2 1 = Some (Some (- 10))"
    by (simp_all add: speed_diff_at_def)
  ultimately show ?thesis using h1 h2 by blast
qed

subsection \<open>Lap times\<close>

lemma digit_cases:
  "d < 10 \<Longrightarrow> d = 0 \<or> d = 1 \<or> d = 2 \<or> d = 3 \<or> d = 4 \<or> d = 5 \<or> d = 6 \<or> d = 7 \<or> d = 8 \<or> d = (9::nat)"
  by arith

lemma digit_of_digit_char: "d < 10 \<Longrightarrow> digit_of (digit_char d) = Some d"
  by (drule digit_cases) (auto simp: digit_of_def digit_char_def)

lemma digit_char_not_sep: "d < 10 \<Longrightarrow> digit_char d \<noteq> CHR '':'' \<and> digit_char d \<noteq> CHR ''.''"
  by (drule digit_cases) (auto simp: digit_char_def)

lemma digit_of_zero: "digit_of CHR ''0'' = Some 0"
  by (simp add: digit_of_def)

lemma parse_two_digits:
  "x < 10 \<Longrightarrow> y < 10 \<Longrightarrow> parse_digits 0 [digit_char x, digit_char y] = Some (10 * x + y)"
  by (simp add: digit_of_digit_char)

lemma parse_fraction:
  "a < 10 \<Longrightarrow> b < 10 \<Longrightarrow> c < 10 \<Longrightarrow>
     parse_digits 0 ([digit_char a, digit_char b, digit_char c] @ ''000'')
       = Some ((100 * a + 10 * b + c) * 1000)"
  by (simp add: digit_of_digit_char digit_of_zero)

lemma strptime_digits:
  assumes "x1 < 10" "y1 < 10" "x2 < 10" "y2 < 10" "a < 10" "b < 10" "c < 10"
    and "10 * x1 + y1 < 60" "10 * x2 + y2 < 60"
  shows "strptime_MSf ([digit_char x1, digit_char y1] @ '':'' @ [digit_char x2, digit_char y2]
            @ ''.'' @ [digit_char a, digit_char b, digit_char c])
     = Inr \<lparr>ordinal = 693596, hour = 0, minute = 10 * x1 + y1, second = 10 * x2 + y2,
            microsecond = (100 * a + 10 * b + c) * 1000\<rparr>"
proof -
  note ns = digit_char_not_sep[OF assms(1)] digit_char_not_sep[OF assms(2)]
    digit_char_not_sep[OF assms(3)] digit_char_not_sep[OF assms(4)]
    digit_char_not_sep[OF assms(5)] digit_char_not_sep[OF assms(6)] digit_char_not_sep[OF assms(7)]
  let ?fs = "[digit_char a, digit_char b, digit_char c]"
  let ?rest = "[digit_char x2, digit_char y2] @ ''.'' @ ?fs"
  let ?s = "[digit_char x1, digit_char y1] @ '':'' @ ?rest"
  have t1: "takeWhile (\<lambda>c. c \<noteq> CHR '':'') ?s = [digit_char x1, digit_char y1]"
    using ns by simp
  have r1: "drop (length [digit_char x1, digit_char y1] + 1) ?s = ?rest" by simp
  have t2: "takeWhile (\<lambda>c. c \<noteq> CHR ''.'') ?rest = [digit_char x2, digit_char y2]"
    using ns by simp
  have r2: "drop (length [digit_char x2, digit_char y2] + 1) ?rest = ?fs" by simp
  have rep: "?fs @ replicate (6 - length ?fs) CHR ''0'' = ?fs @ ''000''"
    by (simp add: numeral_3_eq_3)
  have p1: "parse_digits 0 [digit_char x1, digit_char y1] = Some (10 * x1 + y1)"
    by (rule parse_two_digits[OF assms(1,2)])
  have p2: "parse_digits 0 [digit_char x2, digit_char y2] = Some (10 * x2 + y2)"
    by (rule parse_two_digits[OF assms(3,4)])
  have p3: "parse_digits 0 (?fs @ ''000'') = Some ((100 * a + 10 * b + c) * 1000)"
    by (rule parse_fraction[OF assms(5,6,7)])
  show ?thesis
    unfolding strptime_MSf_def Let_def t1 r1 t2 r2 rep p1 p2 p3
    using assms(8,9) by simp
qed

lemma mod_mult_div: "(r mod (b * c)) div b = (r div b) mod (c::nat)"
  by (metis div_mult2_eq mod_mult2_eq div_mult_self4 div_by_0 mod_div_trivial mult_0 mod_0
      add.right_neutral)

lemma three_digits:
  assumes "v < (1000::nat)"
  shows "100 * (v div 100 mod 10) + 10 * (v div 10 mod 10) + v mod 10 = v"
proof -
  have "v div 100 mod 10 = v div 100" using assms by simp
  moreover have "v = 100 * (v div 100) + v mod 100" by simp
  moreover have "v mod 100 = 10 * (v mod 100 div 10) + v mod 100 mod 10" by simp
  moreover have "v mod 100 div 10 = v div 10 mod 10"
    using mod_mult_div[of v 10 10] by simp
  moreover have "v mod 100 mod 10 = v mod 10"
    by (simp add: mod_mod_cancel)
  ultimately show ?thesis by linarith
qed

lemma datetime_add_reference:
  assumes "within_datetime_range t"
  shows "datetime_add reference_datetime t =
     Inr \<lparr>ordinal = 738886 + t div 86400000000,
          hour = nat (t mod 86400000000) div 3600000000,
          minute = nat (t mod 86400000000) div 60000000 mod 60,
          second = nat (t mod 86400000000) div 1000000 mod 60,
          microsecond = nat (t mod 86400000000) mod 1000000\<rparr>"
  using assms
  by (simp add: datetime_add_def reference_datetime_def since_midnight_def
      within_datetime_range_def Let_def)

lemma formatted_cut:
  "take (length (strftime_MSf d) - 3) (strftime_MSf d) =
     pad2 (minute d) @ '':'' @ pad2 (second d) @ ''.''
       @ [digit_char (microsecond d div 100000 mod 10), digit_char (microsecond d div 10000 mod 10),
          digit_char (microsecond d div 1000 mod 10)]"
  by (simp add: strftime_MSf_def pad2_def pad6_def)

lemma strptime_formatted_cut:
  assumes "minute d < 60" "second d < 60" "microsecond d < 1000000"
  shows "strptime_MSf (take (length (strftime_MSf d) - 3) (strftime_MSf d)) =
     Inr \<lparr>ordinal = 693596, hour = 0, minute = minute d, second = second d,
          microsecond = microsecond d div 1000 * 1000\<rparr>"
proof -
  let ?u = "microsecond d" and ?v = "microsecond d div 1000"
  have v: "?v < 1000" using assms(3) by simp
  have "?u div 100000 = ?v div 100" using div_mult2_eq[of ?u 1000 100] by simp
  moreover have "?u div 10000 = ?v div 10" using div_mult2_eq[of ?u 1000 10] by simp
  ultimately have da: "?u div 100000 mod 10 = ?v div 100 mod 10"
      "?u div 10000 mod 10 = ?v div 10 mod 10"
    by (simp_all only:)
  have m: "10 * (minute d div 10 mod 10) + minute d mod 10 = minute d" using assms(1) by simp
  have s: "10 * (second d div 10 mod 10) + second d mod 10 = second d" using assms(2) by simp
  have "strptime_MSf ([digit_char (minute d div 10 mod 10), digit_char (minute d mod 10)] @ '':''
          @ [digit_char (second d div 10 mod 10), digit_char (second d mod 10)] @ ''.''
          @ [digit_char (?v div 100 mod 10), digit_char (?v div 10 mod 10), digit_char (?v mod 10)])
     = Inr \<lparr>ordinal = 693596, hour = 0,
            minute = 10 * (minute d div 10 mod 10) + minute d mod 10,
            second = 10 * (second d div 10 mod 10) + second d mod 10,
            microsecond = (100 * (?v div 100 mod 10) + 10 * (?v div 10 mod 10) + ?v mod 10) * 1000\<rparr>"
    by (rule strptime_digits) (simp_all only: m s assms mod_less_divisor zero_less_numeral)
  then show ?thesis
    unfolding formatted_cut pad2_def da m s three_digits[OF v] .
qed

lemma nat_mod_hour:
  "nat (t mod 86400000000) mod 3600000000 = nat (t mod 3600000000)"
proof -
  have "nat (t mod 86400000000) mod 3600000000 = nat (t mod 86400000000 mod 3600000000)"
    by (simp add: nat_mod_distrib)
  also have "t mod 86400000000 mod 3600000000 = t mod 3600000000"
    by (rule mod_mod_cancel) simp
  finally show ?thesis .
qed

lemma convert_one_kept:
  assumes "within_datetime_range t"
  shows "convert_one t = Inr (kept_components t)"
proof -
  let ?r = "nat (t mod 86400000000)"
  let ?d = "\<lparr>ordinal = 738886 + t div 86400000000, hour = ?r div 3600000000,
            minute = ?r div 60000000 mod 60, second = ?r div 1000000 mod 60,
            microsecond = ?r mod 1000000\<rparr>"
  have add: "datetime_add reference_datetime t = Inr ?d"
    by (rule datetime_add_reference[OF assms])
  have parse: "strptime_MSf (take (length (strftime_MSf ?d) - 3) (strftime_MSf ?d)) =
     Inr \<lparr>ordinal = 693596, hour = 0, minute = minute ?d, second = second ?d,
          microsecond = microsecond ?d div 1000 * 1000\<rparr>"
    by (rule strptime_formatted_cut) simp_all
  have h: "?r mod 3600000000 = nat (t mod 3600000000)" by (rule nat_mod_hour)
  have m: "?r div 60000000 mod 60 = nat (t mod 3600000000) div 60000000"
    using mod_mult_div[of ?r 60000000 60] h by simp
  have "?r mod 3600000000 div 1000000 = ?r div 1000000 mod 3600"
    using mod_mult_div[of ?r 1000000 3600] by simp
  then have "?r mod 3600000000 div 1000000 mod 60 = ?r div 1000000 mod 3600 mod 60" by simp
  also have "\<dots> = ?r div 1000000 mod 60" by (rule mod_mod_cancel) simp
  finally have s: "?r div 1000000 mod 60 = nat (t mod 3600000000) div 1000000 mod 60"
    using h by simp
  have "?r mod 3600000000 mod 1000000 = ?r mod 1000000" by (rule mod_mod_cancel) simp
  then have u: "?r mod 1000000 = nat (t mod 3600000000) mod 1000000" using h by simp
  show ?thesis
    unfolding convert_one_def add sum.case Let_def parse kept_components_def
    by (simp only: datetime.simps m s u)
qed

lemma convert_all_kept:
  "\<forall>t\<in>set data. within_datetime_range t \<Longrightarrow>
     convert_timedelta_to_datetime data = Inr (map kept_components data)"
  by (induction data) (simp_all add: convert_one_kept)

lemma kept_components_hours: "kept_components (t + k * 3600000000) = kept_components t"
  by (simp add: kept_components_def)

lemma split_three:
  fixes q b c :: nat
  shows "q = (b * c) * (q div (b * c)) + b * (q div b mod c) + q mod b"
proof -
  have "q = (b * c) * (q div (b * c)) + q mod (b * c)" by (rule mult_div_mod_eq[symmetric])
  also have "q mod (b * c) = b * (q div b mod c) + q mod b" by (rule mod_mult2_eq)
  finally show ?thesis by (simp only: add.assoc)
qed

lemma milliseconds_recomposed:
  fixes x y z q :: nat
  assumes "q = 60000 * x + 1000 * y + z"
  shows "((0 * 60 + x) * 60 + y) * 1000000 + z * 1000 = q * 1000"
  unfolding assms by simp

lemma since_midnight_kept:
  "since_midnight (kept_components t) = nat (t mod 3600000000) div 1000 * 1000"
proof -
  let ?r = "nat (t mod 3600000000)"
  let ?q = "?r div 1000"
  have x: "?r div 60000000 = ?q div 60000" using div_mult2_eq[of ?r 1000 60000] by simp
  have "?r div 1000000 = ?q div 1000" using div_mult2_eq[of ?r 1000 1000] by simp
  then have y: "?r div 1000000 mod 60 = ?q div 1000 mod 60" by (simp only:)
  have z: "?r mod 1000000 div 1000 = ?q mod 1000" using mod_mult_div[of ?r 1000 1000] by simp
  have "?q = 60000 * (?q div 60000) + 1000 * (?q div 1000 mod 60) + ?q mod 1000"
    using split_three[of ?q 1000 60] by simp
  then have "((0 * 60 + ?q div 60000) * 60 + ?q div 1000 mod 60) * 1000000 + ?q mod 1000 * 1000
      = ?q * 1000"
    by (rule milliseconds_recomposed)
  then show ?thesis
    unfolding since_midnight_def kept_components_def Let_def datetime.simps x y z .
qed

lemma timedelta_within_datetime_range:
  assumes "- 9223372036854776 \<le> t" "t \<le> 9223372036854775"
  shows "within_datetime_range t"
proof -
  have "(- 9223372036854776) div 86400000000 \<le> t div (86400000000::int)"
    using assms(1) by (rule zdiv_mono1) simp
  moreover have "t div 86400000000 \<le> 9223372036854775 div (86400000000::int)"
    using assms(2) by (rule zdiv_mono1) simp
  ultimately show ?thesis by (simp add: within_datetime_range_def)
qed

text \<open>
  Claim C10. For every list of durations (in microseconds) whose sums with the reference
  date stay within the years 1 to 9999, as every pandas \<^verbatim>\<open>Timedelta\<close> does, the call
  does not fail and returns for each duration \<open>t\<close> the datetime 1900-01-01 00h with the
  minutes, seconds and milliseconds of \<open>t\<close>: its time of day is \<open>t\<close> modulo one hour, cut
  to whole milliseconds. Durations that differ by whole hours give the same result, so
  the hours of a lap time of one hour or more are lost without an error.
\<close>

theorem hours_dropped_from_lap_times:
  assumes "\<forall>t\<in>set data. within_datetime_range t"
  shows "convert_timedelta_to_datetime data = Inr (map kept_components data)
     \<and> (\<forall>t. since_midnight (kept_components t) = nat (t mod 3600000000) div 1000 * 1000)
     \<and> (\<forall>t k. kept_components (t + k * 3600000000) = kept_components t)"
  using convert_all_kept[OF assms] since_midnight_kept kept_components_hours by simp

theorem hours_dropped_from_lap_times_witness:
  "convert_timedelta_to_datetime [83456789, 3683456789]
     = Inr [\<lparr>ordinal = 693596, hour = 0, minute = 1, second = 23, microsecond = 456000\<rparr>,
            \<lparr>ordinal = 693596, hour = 0, minute = 1, second = 23, microsecond = 456000\<rparr>]"
proof -
  have h: "\<forall>t\<in>set [83456789, 3683456789]. within_datetime_range t"
    by (simp add: within_datetime_range_def)
  have "convert_timedelta_to_datetime [83456789, 3683456789]
          = Inr (map kept_components [83456789, 3683456789])"
    using hours_dropped_from_lap_times[OF h] by (rule conjunct1)
  then show ?thesis by (simp add: kept_components_def)
qed

subsection \<open>Historical aggregations\<close>

lemma value_counts_Nil: "value_counts [] = []"
  by (simp add: value_counts_def unique_first_def)

lemma no_event_in_range_raises:
  assumes "\<forall>r\<in>set schedule. \<not> (start_year \<le> EventDate_year r \<and> EventDate_year r \<le> end_year)"
  shows "get_country_counts_ISO get_iso_code schedule start_year end_year = Inl (KeyError ''ISO'')"
proof -
  have "filter (\<lambda>r. EventDate_year r \<ge> start_year \<and> EventDate_year r \<le> end_year) schedule = []"
    using assms by (simp add: filter_empty_conv)
  then show ?thesis by (simp add: get_country_counts_ISO_def value_counts_Nil)
qed

lemma no_win_in_range_raises:
  assumes "\<forall>r\<in>set race_winners. \<not> (start_year \<le> Season r \<and> Season r \<le> end_year)"
  shows "plot_race_wins_per_team team_color race_winners start_year end_year = Inl (KeyError ''Color'')"
proof -
  have "filter (\<lambda>r. Season r \<ge> start_year \<and> Season r \<le> end_year) race_winners = []"
    using assms by (simp add: filter_empty_conv)
  then show ?thesis by (simp add: plot_race_wins_per_team_def value_counts_Nil)
qed

text \<open>
  Claim C7. A year range that matches no row should give an empty result, not an error.
  On the source both aggregations raise \<^verbatim>\<open>KeyError\<close>: the columns \<^verbatim>\<open>ISO\<close> and
  \<^verbatim>\<open>Color\<close> are created by the first assignment inside the loop over the counted rows,
  so with no row they do not exist when \<^verbatim>\<open>dropna(subset=['ISO'])\<close> and
  \<^verbatim>\<open>team_wins['Color']\<close> ask for them. The range from 2020 to 1990, which the two
  year drop-downs of the dashboard allow, matches no row of any snapshot.
\<close>

theorem year_range_without_rows_raises_KeyError:
  "get_country_counts_ISO get_iso_code schedule 2020 1990 = Inl (KeyError ''ISO'')
   \<and> plot_race_wins_per_team team_color race_winners 2020 1990 = Inl (KeyError ''Color'')"
proof
  show "get_country_counts_ISO get_iso_code schedule 2020 1990 = Inl (KeyError ''ISO'')"
    by (rule no_event_in_range_raises) simp
  show "plot_race_wins_per_team team_color race_winners 2020 1990 = Inl (KeyError ''Color'')"
    by (rule no_win_in_range_raises) simp
qed

subsection \<open>Strategy reconstruction and merge\<close>


lemma set_group_keys:
  "set (group_keys ls) = {(Driver l, s, c) | l s c. l \<in> set ls \<and> Stint l = Some s \<and> Compound l = Some c}"
  by (auto simp: group_keys_def split: option.splits)

lemma set_recorded_stints:
  "set (recorded_stints ls d) = {s. \<exists>c. (d, s, c) \<in> set (group_keys ls)}"
  by (auto simp: recorded_stints_def set_group_keys split: option.splits if_splits) metis

lemma recorded_stints_all:
  "\<forall>l\<in>set ls. Stint l \<noteq> None \<longrightarrow> Compound l \<noteq> None \<Longrightarrow> recorded_stints ls d = stint_numbers ls d"
  unfolding recorded_stints_def stint_numbers_def
  by (intro arg_cong[where f=concat] map_cong) (auto split: option.splits)

lemma recorded_stints_of_driver:
  "\<forall>l\<in>set ls. Driver l = d \<and> Stint l \<noteq> None \<longrightarrow> Compound l \<noteq> None \<Longrightarrow>
     recorded_stints ls d = stint_numbers ls d"
  unfolding recorded_stints_def stint_numbers_def
  by (intro arg_cong[where f=concat] map_cong) (auto split: option.splits)

lemma set_stints_of:
  "set (stints_of ls) = (\<lambda>(d, s, c). (d, s, c, count_list (group_keys ls) (d, s, c))) ` set (group_keys ls)"
  by (simp add: stints_of_def)

lemma set_stints_by_driver:
  "set (stints_by_driver st ds) = {r \<in> set st. fst r \<in> set ds}"
  by (auto simp: stints_by_driver_def)

lemma stints_of_driver_in_frame:
  assumes "d \<in> set ds"
  shows "set (map (\<lambda>(_, s, _). s) (filter (\<lambda>r. fst r = d) (stints_by_driver (stints_of ls) ds)))
       = set (recorded_stints ls d)"
  using assms
  by (auto simp: set_stints_by_driver set_stints_of set_recorded_stints image_iff) force+

lemma set_drop_duplicates: "set (drop_duplicates key seen xs) \<subseteq> set xs"
  by (induction xs arbitrary: seen) auto

lemma drop_duplicates_keys:
  "distinct (map key (drop_duplicates key seen xs))
     \<and> set (map key (drop_duplicates key seen xs)) \<inter> set seen = {}"
proof (induction xs arbitrary: seen)
  case Nil
  then show ?case by simp
next
  case (Cons x xs)
  show ?case
  proof (cases "key x \<in> set seen")
    case True
    with Cons.IH[of seen] show ?thesis by simp
  next
    case False
    from Cons.IH[of "key x # seen"] False show ?thesis by auto
  qed
qed

lemma strategy_frame_rows:
  assumes "r \<in> set (strategy_frame ev)"
  shows "s_Driver r \<in> set (drivers ev)
     \<and> r = strategy_of (stints_by_driver (stints_of (laps ev)) (drivers ev)) (s_Driver r)
     \<and> recorded_stints (laps ev) (s_Driver r) \<noteq> []"
proof -
  let ?dfr = "stints_by_driver (stints_of (laps ev)) (drivers ev)"
  from assms have "r \<in> set (map (\<lambda>q. strategy_of ?dfr (fst q)) ?dfr)"
    unfolding strategy_frame_def Let_def using set_drop_duplicates by fastforce
  then obtain q where q: "q \<in> set ?dfr" and r: "r = strategy_of ?dfr (fst q)" by auto
  have d: "s_Driver r = fst q" by (simp add: r strategy_of_def)
  from q have in_d: "fst q \<in> set (drivers ev)" and "q \<in> set (stints_of (laps ev))"
    by (simp_all add: set_stints_by_driver)
  then obtain s c where "(fst q, s, c) \<in> set (group_keys (laps ev))"
    by (auto simp: set_stints_of)
  then have "s \<in> set (recorded_stints (laps ev) (fst q))"
    unfolding set_recorded_stints by blast
  then have "recorded_stints (laps ev) (fst q) \<noteq> []" by auto
  with in_d r d show ?thesis by simp
qed

lemma strategy_frame_Stops:
  assumes "r \<in> set (strategy_frame ev)"
  shows "Stops r = Max (set (recorded_stints (laps ev) (s_Driver r))) - 1"
proof -
  let ?dfr = "stints_by_driver (stints_of (laps ev)) (drivers ev)"
  from strategy_frame_rows[OF assms]
  have d: "s_Driver r \<in> set (drivers ev)" and r: "r = strategy_of ?dfr (s_Driver r)" by simp_all
  have "Stops (strategy_of ?dfr (s_Driver r))
      = Max (set (map (\<lambda>(_, s, _). s) (filter (\<lambda>q. fst q = s_Driver r) ?dfr))) - 1"
    by (simp add: strategy_of_def)
  also have "\<dots> = Max (set (recorded_stints (laps ev) (s_Driver r))) - 1"
    by (simp only: stints_of_driver_in_frame[OF d])
  finally show ?thesis using r by simp
qed

lemma strategy_frame_distinct: "distinct (map s_Driver (strategy_frame ev))"
  unfolding strategy_frame_def Let_def using drop_duplicates_keys by blast

lemma matches_of_distinct:
  "distinct (map fst right) \<Longrightarrow>
     map f (filter (\<lambda>r. fst r = k) right) = (if k \<in> fst ` set right then [f (k, the (map_of right k))] else [])"
  by (induction right) (auto simp: image_iff)

lemma merge_keys:
  assumes "distinct (map fst right)" and "\<And>l p. key' (join l p) = key l"
  shows "map key' (merge_on_Driver key join left right)
       = filter (\<lambda>k. k \<in> fst ` set right) (map key left)"
proof (induction left)
  case Nil
  then show ?case by (simp add: merge_on_Driver_def)
next
  case (Cons l left)
  have "map key' (map (\<lambda>r. join l (snd r)) (filter (\<lambda>r. fst r = key l) right))
      = map (\<lambda>r. key l) (filter (\<lambda>r. fst r = key l) right)"
    by (simp add: assms(2))
  also have "\<dots> = (if key l \<in> fst ` set right then [key l] else [])"
    using matches_of_distinct[OF assms(1), of "\<lambda>r. key l" "key l"] by simp
  finally show ?case using Cons by (simp add: merge_on_Driver_def)
qed

lemma set_merge:
  "set (merge_on_Driver key join left right)
     = {join l p | l p. l \<in> set left \<and> (key l, p) \<in> set right}"
proof (intro set_eqI iffI)
  fix x assume "x \<in> set (merge_on_Driver key join left right)"
  then obtain l r where "l \<in> set left" "r \<in> set right" "fst r = key l" "x = join l (snd r)"
    by (auto simp: merge_on_Driver_def)
  then have "l \<in> set left \<and> (key l, snd r) \<in> set right \<and> x = join l (snd r)"
    by (metis prod.collapse)
  then show "x \<in> {join l p | l p. l \<in> set left \<and> (key l, p) \<in> set right}" by blast
next
  fix x assume "x \<in> {join l p | l p. l \<in> set left \<and> (key l, p) \<in> set right}"
  then obtain l p where l: "l \<in> set left" and p: "(key l, p) \<in> set right" and x: "x = join l p"
    by blast
  from p have "join l p \<in> (\<lambda>r. join l (snd r)) ` {r \<in> set right. fst r = key l}"
    by force
  with l x show "x \<in> set (merge_on_Driver key join left right)"
    by (auto simp: merge_on_Driver_def)
qed

lemma enumerate1_keys: "map fst (enumerate1 xs) = xs"
proof -
  have "length xs = length [1 ..< Suc (length xs)]" by (simp only: length_upt)
  then show ?thesis unfolding enumerate1_def by (rule map_fst_zip)
qed

lemma get_parallel_Inr:
  assumes "get_parallel_coordinates_plot_dataset ev = Inr out"
  obtains merged1 merged_df where
    "merged1 = merge_on_Driver s_Driver (\<lambda>l p. (l, p)) (strategy_frame ev)
                 (enumerate1 (quali_abbreviations ev))"
    and "merged_df = merge_on_Driver (\<lambda>lq. s_Driver (fst lq))
                          (\<lambda>lq p. \<lparr>m_Driver = s_Driver (fst lq), m_Stops = Stops (fst lq),
                                    m_CompoundStrategy = CompoundStrategy (fst lq),
                                    QualiPosition = snd lq, FinishPosition = p\<rparr>)
                          merged1 (enumerate1 (race_abbreviations ev))"
    and "out = sort_key QualiPosition merged_df"
  using assms
  by (simp add: get_parallel_coordinates_plot_dataset_def Let_def split: if_splits)

lemma output_rows:
  assumes "get_parallel_coordinates_plot_dataset ev = Inr out" and "r \<in> set out"
  shows "\<exists>l\<in>set (strategy_frame ev). m_Driver r = s_Driver l \<and> m_Stops r = Stops l
            \<and> m_CompoundStrategy r = CompoundStrategy l
            \<and> (m_Driver r, QualiPosition r) \<in> set (enumerate1 (quali_abbreviations ev))
            \<and> (m_Driver r, FinishPosition r) \<in> set (enumerate1 (race_abbreviations ev))"
proof -
  from assms(1) obtain merged1 merged_df where
    m1: "merged1 = merge_on_Driver s_Driver (\<lambda>l p. (l, p)) (strategy_frame ev)
                 (enumerate1 (quali_abbreviations ev))"
    and m2: "merged_df = merge_on_Driver (\<lambda>lq. s_Driver (fst lq))
                          (\<lambda>lq p. \<lparr>m_Driver = s_Driver (fst lq), m_Stops = Stops (fst lq),
                                    m_CompoundStrategy = CompoundStrategy (fst lq),
                                    QualiPosition = snd lq, FinishPosition = p\<rparr>)
                          merged1 (enumerate1 (race_abbreviations ev))"
    and out: "out = sort_key QualiPosition merged_df"
    by (rule get_parallel_Inr)
  from assms(2) have "r \<in> set merged_df" by (simp add: out)
  then obtain lq p where lq: "lq \<in> set merged1"
    and p: "(s_Driver (fst lq), p) \<in> set (enumerate1 (race_abbreviations ev))"
    and r: "r = \<lparr>m_Driver = s_Driver (fst lq), m_Stops = Stops (fst lq),
                 m_CompoundStrategy = CompoundStrategy (fst lq),
                 QualiPosition = snd lq, FinishPosition = p\<rparr>"
    unfolding m2 set_merge by blast
  from lq obtain l q where l: "l \<in> set (strategy_frame ev)"
    and q: "(s_Driver l, q) \<in> set (enumerate1 (quali_abbreviations ev))" and "lq = (l, q)"
    unfolding m1 set_merge by blast
  with p r show ?thesis by auto
qed

lemma stops_nonneg:
  assumes "xs \<noteq> []" "\<forall>s\<in>set xs. (1::int) \<le> s"
  shows "0 \<le> Max (set xs) - 1"
proof -
  have "Max (set xs) \<in> set xs" using assms(1) by (intro Max_in) simp_all
  with assms(2) show ?thesis by fastforce
qed

text \<open>
  Claim C5, as stated: the stop count is the largest stint number observed for the
  competitor minus one, and is not negative. The grouping by driver, stint and compound
  leaves out every lap with a missing compound, so a stint whose laps carry no compound
  is not counted: a competitor with one lap on each of the stints 1, 2 and 3, the last
  without compound, is reported with one stop, not two. And the source subtracts one
  from whatever the largest stint number is: a competitor whose only stint has the
  number 0 is reported with \<open>-1\<close> stops.
\<close>

theorem stint_without_compound_is_not_counted:
  "strategy_frame missing_compound_event
     = [\<lparr>s_Driver = ''VER'', Stops = 1, CompoundStrategy = [''SOFT'', ''HARD'']\<rparr>,
        \<lparr>s_Driver = ''HAM'', Stops = - 1, CompoundStrategy = [''SOFT'']\<rparr>]
   \<and> stint_numbers (laps missing_compound_event) ''VER'' = [1, 2, 3]
   \<and> Max (set (stint_numbers (laps missing_compound_event) ''VER'')) - 1 = 2
   \<and> stint_numbers (laps missing_compound_event) ''HAM'' = [0]
   \<and> get_parallel_coordinates_plot_dataset missing_compound_event
     = Inr [\<lparr>m_Driver = ''VER'', m_Stops = 1, m_CompoundStrategy = [''SOFT'', ''HARD''],
            QualiPosition = 1, FinishPosition = 1\<rparr>,
           \<lparr>m_Driver = ''HAM'', m_Stops = - 1, m_CompoundStrategy = [''SOFT''],
            QualiPosition = 2, FinishPosition = 2\<rparr>]"
  by code_simp

text \<open>
  Claim C5, amended. For every competitor of the strategy frame, and so for every row
  the function returns, the stop count is the largest stint number among the
  competitor's laps that carry both a stint number and a compound, minus one. Where
  each of the competitor's laps with a stint number carries a compound, this is the
  largest stint number observed for the competitor minus one. The stop count is not
  negative where these stint numbers are at least 1. A competitor with the stint numbers
  1, 1, 1, 2, 2, 3, 3, 3, 3, each lap with a compound, has the stop count 2.
\<close>

theorem stop_count_is_max_recorded_stint_minus_one:
  "(\<forall>r\<in>set (strategy_frame ev).
       Stops r = Max (set (recorded_stints (laps ev) (s_Driver r))) - 1
       \<and> ((\<forall>l\<in>set (laps ev). Driver l = s_Driver r \<and> Stint l \<noteq> None \<longrightarrow> Compound l \<noteq> None)
            \<longrightarrow> Stops r = Max (set (stint_numbers (laps ev) (s_Driver r))) - 1)
       \<and> ((\<forall>s\<in>set (recorded_stints (laps ev) (s_Driver r)). 1 \<le> s) \<longrightarrow> 0 \<le> Stops r))
   \<and> (\<forall>out. get_parallel_coordinates_plot_dataset ev = Inr out \<longrightarrow>
         (\<forall>r\<in>set out.
            m_Stops r = Max (set (recorded_stints (laps ev) (m_Driver r))) - 1
            \<and> ((\<forall>l\<in>set (laps ev). Driver l = m_Driver r \<and> Stint l \<noteq> None \<longrightarrow> Compound l \<noteq> None)
                 \<longrightarrow> m_Stops r = Max (set (stint_numbers (laps ev) (m_Driver r))) - 1)
            \<and> ((\<forall>s\<in>set (recorded_stints (laps ev) (m_Driver r)). 1 \<le> s) \<longrightarrow> 0 \<le> m_Stops r)))"
proof -
  let ?P = "\<lambda>d n. n = Max (set (recorded_stints (laps ev) d)) - 1
       \<and> ((\<forall>l\<in>set (laps ev). Driver l = d \<and> Stint l \<noteq> None \<longrightarrow> Compound l \<noteq> None)
            \<longrightarrow> n = Max (set (stint_numbers (laps ev) d)) - 1)
       \<and> ((\<forall>s\<in>set (recorded_stints (laps ev) d). 1 \<le> s) \<longrightarrow> 0 \<le> n)"
  have frame: "?P (s_Driver l) (Stops l)" if "l \<in> set (strategy_frame ev)" for l
  proof -
    have eq: "Stops l = Max (set (recorded_stints (laps ev) (s_Driver l))) - 1"
      by (rule strategy_frame_Stops[OF that])
    have ne: "recorded_stints (laps ev) (s_Driver l) \<noteq> []"
      using strategy_frame_rows[OF that] by simp
    have all: "Stops l = Max (set (stint_numbers (laps ev) (s_Driver l))) - 1"
      if "\<forall>k\<in>set (laps ev). Driver k = s_Driver l \<and> Stint k \<noteq> None \<longrightarrow> Compound k \<noteq> None"
      using eq recorded_stints_of_driver[OF that] by simp
    have pos: "0 \<le> Stops l" if "\<forall>s\<in>set (recorded_stints (laps ev) (s_Driver l)). 1 \<le> s"
      using eq stops_nonneg[OF ne that] by simp
    from eq all pos show ?thesis by blast
  qed
  have outp: "?P (m_Driver r) (m_Stops r)"
    if "get_parallel_coordinates_plot_dataset ev = Inr out" "r \<in> set out" for out r
  proof -
    from output_rows[OF that] obtain l where l: "l \<in> set (strategy_frame ev)"
      and d: "m_Driver r = s_Driver l" and st: "m_Stops r = Stops l" by blast
    show ?thesis unfolding d st by (rule frame[OF l])
  qed
  from frame outp show ?thesis by blast
qed

lemma example_event_out: "get_parallel_coordinates_plot_dataset example_event
   = Inr [\<lparr>m_Driver = ''VER'', m_Stops = 2, m_CompoundStrategy = [''SOFT'', ''MEDIUM'', ''HARD''],
          QualiPosition = 1, FinishPosition = 1\<rparr>]"
  by code_simp

lemma example_strategy:
  "strategy_frame example_event
     = [\<lparr>s_Driver = ''VER'', Stops = 2, CompoundStrategy = [''SOFT'', ''MEDIUM'', ''HARD'']\<rparr>]"
  by code_simp

theorem stop_count_is_max_recorded_stint_minus_one_witness:
  "stint_numbers (laps example_event) ''VER'' = [1, 1, 1, 2, 2, 3, 3, 3, 3]
   \<and> list_all (\<lambda>l. Compound l \<noteq> None) (laps example_event)
   \<and> map Stops (strategy_frame example_event) = [2]
   \<and> Max (set (stint_numbers (laps example_event) ''VER'')) - 1 = 2
   \<and> get_parallel_coordinates_plot_dataset example_event
       = Inr [\<lparr>m_Driver = ''VER'', m_Stops = 2,
              m_CompoundStrategy = [''SOFT'', ''MEDIUM'', ''HARD''],
              QualiPosition = 1, FinishPosition = 1\<rparr>]"
proof -
  let ?r = "\<lparr>s_Driver = ''VER'', Stops = 2, CompoundStrategy = [''SOFT'', ''MEDIUM'', ''HARD'']\<rparr>"
  have mem: "?r \<in> set (strategy_frame example_event)" by (simp add: example_strategy)
  have comp: "list_all (\<lambda>l. Compound l \<noteq> None) (laps example_event)"
    by (simp add: example_event_def)
  then have hyp: "\<forall>l\<in>set (laps example_event).
      Driver l = s_Driver ?r \<and> Stint l \<noteq> None \<longrightarrow> Compound l \<noteq> None"
    by (simp add: list_all_iff)
  have "\<forall>r\<in>set (strategy_frame example_event).
       Stops r = Max (set (recorded_stints (laps example_event) (s_Driver r))) - 1
       \<and> ((\<forall>l\<in>set (laps example_event).
              Driver l = s_Driver r \<and> Stint l \<noteq> None \<longrightarrow> Compound l \<noteq> None)
            \<longrightarrow> Stops r = Max (set (stint_numbers (laps example_event) (s_Driver r))) - 1)
       \<and> ((\<forall>s\<in>set (recorded_stints (laps example_event) (s_Driver r)). 1 \<le> s) \<longrightarrow> 0 \<le> Stops r)"
    using stop_count_is_max_recorded_stint_minus_one[of example_event] by (rule conjunct1)
  from this[rule_format, OF mem]
  have "(\<forall>l\<in>set (laps example_event).
              Driver l = s_Driver ?r \<and> Stint l \<noteq> None \<longrightarrow> Compound l \<noteq> None)
            \<longrightarrow> Stops ?r = Max (set (stint_numbers (laps example_event) (s_Driver ?r))) - 1"
    by (elim conjE)
  from this[THEN mp, OF hyp]
  have m: "Max (set (stint_numbers (laps example_event) ''VER'')) - 1 = 2" by simp
  have st: "stint_numbers (laps example_event) ''VER'' = [1, 1, 1, 2, 2, 3, 3, 3, 3]"
    by (simp add: example_event_def stint_numbers_def)
  from st comp m show ?thesis by (simp add: example_strategy example_event_out)
qed

lemma mset_sort_key_map: "mset (map g (sort_key f xs)) = mset (map g xs)"
  by simp

text \<open>
  Claim C6, as stated: at most one row per competitor, and a row count of at most the
  size of each source. The merge pairs every strategy row with every row of the
  qualifying results and of the race results that has the same driver, so a competitor
  listed twice in the qualifying results gets two rows: with one strategy row, two
  qualifying rows and one race row the function returns two rows, both for the same
  competitor.
\<close>

theorem competitor_listed_twice_gets_two_rows:
  "get_parallel_coordinates_plot_dataset duplicate_quali_event
     = Inr [\<lparr>m_Driver = ''VER'', m_Stops = 0, m_CompoundStrategy = [''SOFT''],
            QualiPosition = 1, FinishPosition = 1\<rparr>,
           \<lparr>m_Driver = ''VER'', m_Stops = 0, m_CompoundStrategy = [''SOFT''],
            QualiPosition = 2, FinishPosition = 1\<rparr>]
   \<and> length (strategy_frame duplicate_quali_event) = 1
   \<and> length (quali_abbreviations duplicate_quali_event) = 2
   \<and> length (race_abbreviations duplicate_quali_event) = 1"
  by code_simp

text \<open>
  Claim C6, amended. Whenever the function returns, the competitors of its rows are
  exactly the competitors present in all three sources (the strategy frame, the
  qualifying results and the race results), so no row is emitted for a competitor absent
  from one of them, and the rows are in ascending qualifying position. Where no
  competitor is listed twice in the qualifying results or in the race results, there is
  at most one row per competitor, and the row count is at most the size of each source.
\<close>

theorem merge_is_inner_join_sorted_by_quali:
  assumes "get_parallel_coordinates_plot_dataset ev = Inr out"
  shows "m_Driver ` set out = s_Driver ` set (strategy_frame ev)
            \<inter> set (quali_abbreviations ev) \<inter> set (race_abbreviations ev)
     \<and> sorted (map QualiPosition out)
     \<and> (distinct (quali_abbreviations ev) \<and> distinct (race_abbreviations ev) \<longrightarrow>
          distinct (map m_Driver out)
          \<and> length out \<le> min (length (strategy_frame ev))
                (min (length (quali_abbreviations ev)) (length (race_abbreviations ev))))"
proof -
  let ?q = "enumerate1 (quali_abbreviations ev)" and ?f = "enumerate1 (race_abbreviations ev)"
  let ?join = "\<lambda>lq p. \<lparr>m_Driver = s_Driver (fst lq), m_Stops = Stops (fst lq),
                        m_CompoundStrategy = CompoundStrategy (fst lq),
                        QualiPosition = snd lq, FinishPosition = p\<rparr>"
  from assms(1) obtain merged1 merged_df where
    m1: "merged1 = merge_on_Driver s_Driver (\<lambda>l p. (l, p)) (strategy_frame ev) ?q"
    and m2: "merged_df = merge_on_Driver (\<lambda>lq. s_Driver (fst lq)) ?join merged1 ?f"
    and out: "out = sort_key QualiPosition merged_df"
    by (rule get_parallel_Inr)
  have kq: "fst ` set ?q = set (quali_abbreviations ev)"
    and kf: "fst ` set ?f = set (race_abbreviations ev)"
    using enumerate1_keys[of "quali_abbreviations ev"] enumerate1_keys[of "race_abbreviations ev"]
    by (metis set_map)+
  have srt: "sorted (map QualiPosition out)" unfolding out by (rule sorted_sort_key)
  have sub: "d \<in> s_Driver ` set (strategy_frame ev)
            \<inter> set (quali_abbreviations ev) \<inter> set (race_abbreviations ev)"
    if "d \<in> m_Driver ` set out" for d
  proof -
    from that obtain r where r: "r \<in> set out" and d: "d = m_Driver r" by blast
    from output_rows[OF assms r] obtain l where l: "l \<in> set (strategy_frame ev)"
      and dl: "m_Driver r = s_Driver l"
      and q: "(m_Driver r, QualiPosition r) \<in> set ?q"
      and f: "(m_Driver r, FinishPosition r) \<in> set ?f"
      by blast
    have "d \<in> s_Driver ` set (strategy_frame ev)" using l dl d by (metis imageI)
    moreover have "d \<in> fst ` set ?q" using q d by (metis imageI fst_conv)
    moreover have "d \<in> fst ` set ?f" using f d by (metis imageI fst_conv)
    ultimately show ?thesis by (simp add: kq kf)
  qed
  have sup: "d \<in> m_Driver ` set out"
    if "d \<in> s_Driver ` set (strategy_frame ev)
            \<inter> set (quali_abbreviations ev) \<inter> set (race_abbreviations ev)" for d
  proof -
    from that obtain l where l: "l \<in> set (strategy_frame ev)" and dl: "d = s_Driver l" by blast
    from that have "d \<in> fst ` set ?q" and "d \<in> fst ` set ?f" by (simp_all add: kq kf)
    then obtain q f where q: "(d, q) \<in> set ?q" and f: "(d, f) \<in> set ?f" by force
    have "(l, q) \<in> set merged1" unfolding m1 set_merge using l q dl by blast
    moreover have "(s_Driver (fst (l, q)), f) \<in> set ?f" using f dl by simp
    ultimately have "?join (l, q) f \<in> set merged_df" unfolding m2 set_merge by blast
    then have "?join (l, q) f \<in> set out" by (simp add: out)
    moreover have "m_Driver (?join (l, q) f) = d" by (simp add: dl)
    ultimately show ?thesis by (metis imageI)
  qed
  have drivers_eq: "m_Driver ` set out = s_Driver ` set (strategy_frame ev)
            \<inter> set (quali_abbreviations ev) \<inter> set (race_abbreviations ev)"
    using sub sup by blast
  have once: "distinct (map m_Driver out)
          \<and> length out \<le> min (length (strategy_frame ev))
                (min (length (quali_abbreviations ev)) (length (race_abbreviations ev)))"
    if dq0: "distinct (quali_abbreviations ev)" and df0: "distinct (race_abbreviations ev)"
  proof -
    have dq: "distinct (map fst ?q)" and df: "distinct (map fst ?f)"
      using dq0 df0 by (simp_all add: enumerate1_keys)
    have k1: "map (\<lambda>lq. s_Driver (fst lq)) merged1
         = filter (\<lambda>k. k \<in> set (quali_abbreviations ev)) (map s_Driver (strategy_frame ev))"
      unfolding m1
      using merge_keys[OF dq, where key' = "\<lambda>lq. s_Driver (fst lq)" and join = "\<lambda>l p. (l, p)"
          and key = s_Driver and left = "strategy_frame ev"]
      by (simp add: kq)
    have k2: "map m_Driver merged_df
         = filter (\<lambda>k. k \<in> set (race_abbreviations ev)) (map (\<lambda>lq. s_Driver (fst lq)) merged1)"
      unfolding m2
      using merge_keys[OF df, where key' = m_Driver and join = ?join
          and key = "\<lambda>lq. s_Driver (fst lq)" and left = merged1]
      by (simp add: kf)
    let ?ds = "filter (\<lambda>k. k \<in> set (race_abbreviations ev))
          (filter (\<lambda>k. k \<in> set (quali_abbreviations ev)) (map s_Driver (strategy_frame ev)))"
    have ms: "mset (map m_Driver out) = mset ?ds"
      unfolding out mset_sort_key_map k2 k1 ..
    have dist_ds: "distinct ?ds" by (intro distinct_filter) (rule strategy_frame_distinct)
    then have dist: "distinct (map m_Driver out)" using ms by (metis mset_eq_imp_distinct_iff)
    have len: "length out = length ?ds" using ms by (metis length_map size_mset)
    have l1: "length ?ds \<le> length (strategy_frame ev)"
      by (metis length_filter_le length_map le_trans)
    have card_ds: "length ?ds = card (set ?ds)" using dist_ds by (rule distinct_card[symmetric])
    have "card (set ?ds) \<le> card (set (quali_abbreviations ev))" by (rule card_mono) auto
    then have l2: "length ?ds \<le> length (quali_abbreviations ev)"
      using card_ds card_length[of "quali_abbreviations ev"] by linarith
    have "card (set ?ds) \<le> card (set (race_abbreviations ev))" by (rule card_mono) auto
    then have l3: "length ?ds \<le> length (race_abbreviations ev)"
      using card_ds card_length[of "race_abbreviations ev"] by linarith
    from len l1 l2 l3 dist show ?thesis by simp
  qed
  from drivers_eq srt once show ?thesis by blast
qed

lemma merge_event_out:
  "get_parallel_coordinates_plot_dataset merge_event
     = Inr [\<lparr>m_Driver = ''HAM'', m_Stops = 0, m_CompoundStrategy = [''MEDIUM''],
            QualiPosition = 1, FinishPosition = 3\<rparr>,
           \<lparr>m_Driver = ''VER'', m_Stops = 1, m_CompoundStrategy = [''SOFT'', ''HARD''],
            QualiPosition = 2, FinishPosition = 1\<rparr>]"
  by code_simp


theorem merge_is_inner_join_sorted_by_quali_witness:
  "get_parallel_coordinates_plot_dataset merge_event
     = Inr [\<lparr>m_Driver = ''HAM'', m_Stops = 0, m_CompoundStrategy = [''MEDIUM''],
            QualiPosition = 1, FinishPosition = 3\<rparr>,
           \<lparr>m_Driver = ''VER'', m_Stops = 1, m_CompoundStrategy = [''SOFT'', ''HARD''],
            QualiPosition = 2, FinishPosition = 1\<rparr>]
   \<and> s_Driver ` set (strategy_frame merge_event) \<inter> set (quali_abbreviations merge_event)
        \<inter> set (race_abbreviations merge_event) = {''HAM'', ''VER''}
   \<and> distinct (quali_abbreviations merge_event) \<and> distinct (race_abbreviations merge_event)
   \<and> (2 :: nat) \<le> min (length (strategy_frame merge_event))
        (min (length (quali_abbreviations merge_event)) (length (race_abbreviations merge_event)))"
proof -
  let ?out = "[\<lparr>m_Driver = ''HAM'', m_Stops = 0, m_CompoundStrategy = [''MEDIUM''],
            QualiPosition = 1, FinishPosition = 3\<rparr>,
           \<lparr>m_Driver = ''VER'', m_Stops = 1, m_CompoundStrategy = [''SOFT'', ''HARD''],
            QualiPosition = 2, FinishPosition = 1\<rparr>]"
  have h2: "distinct (quali_abbreviations merge_event)"
    and h3: "distinct (race_abbreviations merge_event)"
    by (simp_all add: merge_event_def)
  note all = merge_is_inner_join_sorted_by_quali[OF merge_event_out]
  from all have "m_Driver ` set ?out
      = s_Driver ` set (strategy_frame merge_event) \<inter> set (quali_abbreviations merge_event)
        \<inter> set (race_abbreviations merge_event)"
    by (rule conjunct1)
  then have a: "s_Driver ` set (strategy_frame merge_event) \<inter> set (quali_abbreviations merge_event)
        \<inter> set (race_abbreviations merge_event) = {''HAM'', ''VER''}"
    by simp
  from all have "distinct (quali_abbreviations merge_event) \<and> distinct (race_abbreviations merge_event)
      \<longrightarrow> distinct (map m_Driver ?out)
          \<and> length ?out \<le> min (length (strategy_frame merge_event))
                (min (length (quali_abbreviations merge_event)) (length (race_abbreviations merge_event)))"
    by (elim conjE)
  with h2 h3 have "length ?out \<le> min (length (strategy_frame merge_event))
                (min (length (quali_abbreviations merge_event)) (length (race_abbreviations merge_event)))"
    by blast
  then have b: "(2 :: nat) \<le> min (length (strategy_frame merge_event))
        (min (length (quali_abbreviations merge_event)) (length (race_abbreviations merge_event)))"
    by simp
  from merge_event_out a h2 h3 b show ?thesis by blast
qed
end
